theory Spec2Isabelle
  imports Main
begin

section \<open>The custody schedule engine of src/schedule.ts\<close>

text \<open>
  The engine reads a JavaScript \<open>Date\<close> only through its local calendar fields
  (\<open>getFullYear\<close>, \<open>getMonth\<close>, \<open>getDate\<close>, \<open>getDay\<close>) and passes every
  argument through \<open>startOfDay\<close> before comparing it, so a \<open>Date\<close> is modelled by
  the number of its local calendar day, counted from 1970-01-01; the time of day is not
  represented.  The host has a fixed offset from UTC (no daylight-saving jumps), and only
  valid (finite) dates are considered.  Date strings of the two configuration files have
  the form YYYY-MM-DD and are modelled by their three numeric fields.
\<close>

subsection \<open>Calendar arithmetic of the Date object\<close>

type_synonym date = int

text \<open>Day number of January 1st of a year, as ECMAScript defines it.\<close>

definition DayFromYear :: "int \<Rightarrow> int" where
  "DayFromYear y = 365 * (y - 1970) + (y - 1969) div 4 - (y - 1901) div 100 + (y - 1601) div 400"

definition InLeapYear :: "int \<Rightarrow> bool" where
  "InLeapYear y = (y mod 4 = 0 \<and> (y mod 100 \<noteq> 0 \<or> y mod 400 = 0))"

definition DaysInYear :: "int \<Rightarrow> int" where
  "DaysInYear y = (if InLeapYear y then 366 else 365)"

definition LeapDays :: "int \<Rightarrow> int" where
  "LeapDays y = (if InLeapYear y then 1 else 0)"

text \<open>
  The year of a day: the largest \<open>y\<close> with \<open>DayFromYear y \<le> d\<close>.  It is computed
  from an estimate that is off by at most one (lemma \<open>YearFromDay_unique\<close> below).
\<close>

definition YearFromDay :: "date \<Rightarrow> int" where
  "YearFromDay d =
     (let y = 1970 + (d * 400) div 146097
      in if d < DayFromYear y then y - 1
         else if DayFromYear (y + 1) \<le> d then y + 1
         else y)"

definition DayWithinYear :: "date \<Rightarrow> int" where
  "DayWithinYear d = d - DayFromYear (YearFromDay d)"

text \<open>First day-within-year of month \<open>m\<close> (0 = January); \<open>L\<close> is 1 in a leap year.\<close>

definition MonthStart :: "int \<Rightarrow> int \<Rightarrow> int" where
  "MonthStart m L =
     (if m = 0 then 0 else if m = 1 then 31 else if m = 2 then 59 + L
      else if m = 3 then 90 + L else if m = 4 then 120 + L else if m = 5 then 151 + L
      else if m = 6 then 181 + L else if m = 7 then 212 + L else if m = 8 then 243 + L
      else if m = 9 then 273 + L else if m = 10 then 304 + L else 334 + L)"

definition MonthLength :: "int \<Rightarrow> int \<Rightarrow> int" where
  "MonthLength m L =
     (if m = 1 then 28 + L
      else if m = 3 \<or> m = 5 \<or> m = 8 \<or> m = 10 then 30 else 31)"

definition MonthOfYearDay :: "int \<Rightarrow> int \<Rightarrow> int" where
  "MonthOfYearDay t L =
     (if t < 31 then 0 else if t < 59 + L then 1 else if t < 90 + L then 2
      else if t < 120 + L then 3 else if t < 151 + L then 4 else if t < 181 + L then 5
      else if t < 212 + L then 6 else if t < 243 + L then 7 else if t < 273 + L then 8
      else if t < 304 + L then 9 else if t < 334 + L then 10 else 11)"

definition getFullYear :: "date \<Rightarrow> int" where
  "getFullYear d = YearFromDay d"

definition getMonth :: "date \<Rightarrow> int" where
  "getMonth d = MonthOfYearDay (DayWithinYear d) (LeapDays (YearFromDay d))"

definition getDate :: "date \<Rightarrow> int" where
  "getDate d = DayWithinYear d - MonthStart (getMonth d) (LeapDays (YearFromDay d)) + 1"

text \<open>Weekday, 0 = Sunday; day 0 (1970-01-01) was a Thursday.\<close>

definition getDay :: "date \<Rightarrow> int" where
  "getDay d = (d + 4) mod 7"

text \<open>
  \<open>MakeDay\<close> accepts any month and day-of-month: months beyond 0..11 carry into the
  year, and the day-of-month is added to the first of the month, so day 0 is the last day
  of the previous month.
\<close>

definition MakeDay :: "int \<Rightarrow> int \<Rightarrow> int \<Rightarrow> date" where
  "MakeDay year month dt =
     (let ym = year + month div 12; mn = month mod 12
      in DayFromYear ym + MonthStart mn (LeapDays ym) + dt - 1)"

text \<open>The constructor \<open>new Date(year, month, day)\<close> reads a year from 0 to 99 as 1900 + year.\<close>

definition fullYear :: "int \<Rightarrow> int" where
  "fullYear y = (if 0 \<le> y \<and> y \<le> 99 then 1900 + y else y)"

definition newDate :: "int \<Rightarrow> int \<Rightarrow> int \<Rightarrow> date" where
  "newDate year month dt = MakeDay (fullYear year) month dt"

text \<open>The remainder operator \<open>%\<close> of JavaScript takes the sign of the dividend.\<close>

definition jsRem :: "int \<Rightarrow> int \<Rightarrow> int" where
  "jsRem a b = (if a < 0 then - ((- a) mod \<bar>b\<bar>) else a mod \<bar>b\<bar>)"

subsection \<open>Host environment and configuration\<close>

text \<open>
  \<open>tzOffset\<close> is the local offset from UTC in minutes (\<open>-420\<close> for Mountain Standard
  Time); the two names are the environment variables of the same name.
\<close>

record host =
  tzOffset :: int
  USER_NAME :: "string option"
  COPARENT_NAME :: "string option"

datatype isoDate = ISO int int int

datatype party = User | Coparent

datatype error = ConfigNotFound | InvalidDayName string | TypeError

record WeekdayOvernight =
  wo_parent :: party
  wo_pickupDay :: string
  wo_dropoffDay :: string

record AlternatingWeekends =
  aw_referenceDate :: isoDate
  aw_pickupDay :: string
  aw_pickupTime :: string
  aw_dropoffDay :: string
  aw_dropoffTime :: string

record HolidayRules =
  evenYearUser :: "string list"
  oddYearUser :: "string list"
  alwaysUser :: "string list"
  alwaysCoparent :: "string list"

record ScheduleConfig =
  weekdayOvernight :: WeekdayOvernight
  alternatingWeekends :: AlternatingWeekends
  holidays :: HolidayRules

record CustodyTransition =
  ct_date :: date
  ct_description :: string

record HolidayAssignment =
  ha_name :: string
  ha_date :: date
  ha_parent :: party

subsection \<open>Day helpers\<close>

definition DAYS :: "string list" where
  "DAYS = [''sunday'', ''monday'', ''tuesday'', ''wednesday'', ''thursday'', ''friday'', ''saturday'']"

definition toLowerChar :: "char \<Rightarrow> char" where
  "toLowerChar c =
     (case map_of (zip ''ABCDEFGHIJKLMNOPQRSTUVWXYZ'' ''abcdefghijklmnopqrstuvwxyz'') c of
        Some l \<Rightarrow> l
      | None \<Rightarrow> c)"

definition toLowerCase :: "string \<Rightarrow> string" where
  "toLowerCase s = map toLowerChar s"

text \<open>\<open>Array.prototype.indexOf\<close>: the first position of the element, or \<open>-1\<close>.\<close>

fun indexOf :: "'a list \<Rightarrow> 'a \<Rightarrow> int" where
  "indexOf [] x = -1"
| "indexOf (y # ys) x = (if y = x then 0 else (let i = indexOf ys x in if i = -1 then -1 else i + 1))"

definition dayIndex :: "string \<Rightarrow> error + int" where
  "dayIndex name =
     (let idx = indexOf DAYS (toLowerCase name)
      in if idx = -1 then Inl (InvalidDayName name) else Inr idx)"

definition startOfDay :: "date \<Rightarrow> date" where
  "startOfDay d = newDate (getFullYear d) (getMonth d) (getDate d)"

text \<open>\<open>setDate\<close> goes through \<open>MakeDay\<close> with the date's own year, without the two-digit rule.\<close>

definition addDays :: "date \<Rightarrow> int \<Rightarrow> date" where
  "addDays d n = MakeDay (getFullYear d) (getMonth d) (getDate d + n)"

definition parseLocalDate :: "isoDate \<Rightarrow> date" where
  "parseLocalDate s = (case s of ISO y m d \<Rightarrow> newDate y (m - 1) d)"

text \<open>
  \<open>new Date(iso)\<close> on a date-only string: the instant is midnight UTC of that day, and
  the result is the local calendar day that contains it.
\<close>

definition newDateFromString :: "host \<Rightarrow> isoDate \<Rightarrow> date" where
  "newDateFromString h s =
     (case s of ISO y m d \<Rightarrow> (MakeDay y (m - 1) d * 1440 + tzOffset h) div 1440)"

text \<open>Both arguments are local midnights, so the rounded quotient is the day difference.\<close>

definition diffDays :: "date \<Rightarrow> date \<Rightarrow> int" where
  "diffDays a b = startOfDay a - startOfDay b"

definition SHORT_DAYS :: "string list" where
  "SHORT_DAYS = [''Sun'', ''Mon'', ''Tue'', ''Wed'', ''Thu'', ''Fri'', ''Sat'']"

definition SHORT_MONTHS :: "string list" where
  "SHORT_MONTHS = [''Jan'', ''Feb'', ''Mar'', ''Apr'', ''May'', ''Jun'',
                   ''Jul'', ''Aug'', ''Sep'', ''Oct'', ''Nov'', ''Dec'']"

definition dayNumeral :: "int \<Rightarrow> string" where
  "dayNumeral n =
     (if n < 10 then [''0123456789'' ! nat n]
      else [''0123456789'' ! nat (n div 10), ''0123456789'' ! nat (n mod 10)])"

text \<open>The en-US rendering with short weekday, short month and numeric day: \<open>Fri, Jan 5\<close>.\<close>

definition formatDate :: "date \<Rightarrow> string" where
  "formatDate d =
     SHORT_DAYS ! nat (getDay d) @ '', '' @ SHORT_MONTHS ! nat (getMonth d) @ '' '' @ dayNumeral (getDate d)"

subsection \<open>Floating holidays\<close>

definition nthWeekday :: "int \<Rightarrow> int \<Rightarrow> int \<Rightarrow> int \<Rightarrow> date" where
  "nthWeekday year month weekday n =
     (let first = newDate year month 1;
          dayOfWeek = getDay first;
          dt = 1 + jsRem (weekday - dayOfWeek + 7) 7 + (n - 1) * 7
      in newDate year month dt)"

definition lastWeekday :: "int \<Rightarrow> int \<Rightarrow> int \<Rightarrow> date" where
  "lastWeekday year month weekday =
     (let last = newDate year (month + 1) 0;
          diff = jsRem (getDay last - weekday + 7) 7
      in newDate year month (getDate last - diff))"

text \<open>The object literal, as the list of its entries in insertion order.\<close>

definition getUtahHolidayDates :: "int \<Rightarrow> (string \<times> date) list" where
  "getUtahHolidayDates year =
     [(''New Year's Day'', newDate year 0 1),
      (''MLK Day'', nthWeekday year 0 1 3),
      (''Presidents Day'', nthWeekday year 1 1 3),
      (''Spring Break'', nthWeekday year 2 1 3),
      (''Memorial Day'', lastWeekday year 4 1),
      (''Father's Day'', nthWeekday year 5 0 3),
      (''Mother's Day'', nthWeekday year 4 0 2),
      (''July 4th'', newDate year 6 4),
      (''Pioneer Day'', newDate year 6 24),
      (''Labor Day'', nthWeekday year 8 1 1),
      (''Fall Break'', nthWeekday year 9 4 3),
      (''Thanksgiving'', nthWeekday year 10 4 4),
      (''Christmas 1st half'', newDate year 11 24),
      (''Christmas 2nd half'', newDate year 11 26)]"

subsection \<open>Loading the configuration\<close>

text \<open>
  The module keeps the loaded configuration in the variable \<open>config\<close>;
  \<open>schedule_json\<close> is the content of config/schedule.json, \<open>None\<close> when the file does
  not exist.  \<open>JSON.parse\<close> followed by a type cast checks nothing about the fields.
\<close>

record world =
  config :: "ScheduleConfig option"
  schedule_json :: "ScheduleConfig option"

definition loadConfig :: "world \<Rightarrow> (error + ScheduleConfig) \<times> world" where
  "loadConfig w =
     (case config w of
        Some c \<Rightarrow> (Inr c, w)
      | None \<Rightarrow>
          (case schedule_json w of
             None \<Rightarrow> (Inl ConfigNotFound, w)
           | Some c \<Rightarrow> (Inr c, w\<lparr>config := Some c\<rparr>)))"

subsection \<open>Core logic\<close>

text \<open>
  Every query starts with \<open>const cfg = loadConfig()\<close>; below, \<open>cfg\<close> is that value.
\<close>

definition isUserWeekend :: "host \<Rightarrow> ScheduleConfig \<Rightarrow> date \<Rightarrow> bool" where
  "isUserWeekend h cfg date =
     (let ref = startOfDay (newDateFromString h (aw_referenceDate (alternatingWeekends cfg)));
          target = startOfDay date;
          days = diffDays target ref;
          weeks = days div 7
      in jsRem weeks 2 = 0)"

text \<open>The if/else chain that assigns a holiday, shared by both holiday loops.\<close>

definition holidayParent :: "ScheduleConfig \<Rightarrow> string \<Rightarrow> int \<Rightarrow> party" where
  "holidayParent cfg name year =
     (if name \<in> set (alwaysUser (holidays cfg)) then User
      else if name \<in> set (alwaysCoparent (holidays cfg)) then Coparent
      else if jsRem year 2 = 0 then
        (if name \<in> set (evenYearUser (holidays cfg)) then User else Coparent)
      else
        (if name \<in> set (oddYearUser (holidays cfg)) then User else Coparent))"

fun holidayLoop :: "ScheduleConfig \<Rightarrow> date \<Rightarrow> int \<Rightarrow> (string \<times> date) list \<Rightarrow> HolidayAssignment list" where
  "holidayLoop cfg date year [] = []"
| "holidayLoop cfg date year ((name, holidayDate) # rest) =
     (if diffDays date holidayDate \<noteq> 0 then holidayLoop cfg date year rest
      else \<lparr>ha_name = name, ha_date = holidayDate, ha_parent = holidayParent cfg name year\<rparr>
             # holidayLoop cfg date year rest)"

definition getHolidayAssignmentsForDate :: "ScheduleConfig \<Rightarrow> date \<Rightarrow> HolidayAssignment list" where
  "getHolidayAssignmentsForDate cfg date =
     (let year = getFullYear date
      in holidayLoop cfg date year (getUtahHolidayDates year))"

definition isDayInRange :: "int \<Rightarrow> int \<Rightarrow> int \<Rightarrow> bool" where
  "isDayInRange d start end' =
     (if start \<le> end' then d \<ge> start \<and> d \<le> end' else d \<ge> start \<or> d \<le> end')"

text \<open>The part of \<open>getCustodyStatus\<close> below the holiday check.\<close>

definition weeklyStatus :: "host \<Rightarrow> ScheduleConfig \<Rightarrow> date \<Rightarrow> error + party" where
  "weeklyStatus h cfg d =
     (let dow = getDay d in
      case dayIndex (aw_pickupDay (alternatingWeekends cfg)) of
        Inl e \<Rightarrow> Inl e
      | Inr pickupDow \<Rightarrow>
      (case dayIndex (aw_dropoffDay (alternatingWeekends cfg)) of
        Inl e \<Rightarrow> Inl e
      | Inr dropoffDow \<Rightarrow>
      if isDayInRange dow pickupDow dropoffDow
      then Inr (if isUserWeekend h cfg d then User else Coparent)
      else
      (case dayIndex (wo_pickupDay (weekdayOvernight cfg)) of
        Inl e \<Rightarrow> Inl e
      | Inr overnightPickup \<Rightarrow>
      (case dayIndex (wo_dropoffDay (weekdayOvernight cfg)) of
        Inl e \<Rightarrow> Inl e
      | Inr overnightDropoff \<Rightarrow>
      if dow = overnightPickup \<or> dow = overnightDropoff
      then Inr (wo_parent (weekdayOvernight cfg))
      else Inr (if wo_parent (weekdayOvernight cfg) = User then Coparent else User)))))"

definition getCustodyStatus :: "host \<Rightarrow> ScheduleConfig \<Rightarrow> date \<Rightarrow> error + party" where
  "getCustodyStatus h cfg date =
     (let d = startOfDay date
      in case getHolidayAssignmentsForDate cfg d of
           a # _ \<Rightarrow> Inr (ha_parent a)
         | [] \<Rightarrow> weeklyStatus h cfg d)"

text \<open>A custody query on the module state: \<open>getCustodyStatus\<close> with its call of \<open>loadConfig\<close>.\<close>

definition custodyQuery :: "world \<Rightarrow> host \<Rightarrow> date \<Rightarrow> (error + party) \<times> world" where
  "custodyQuery w h date =
     (case loadConfig w of
        (Inl e, w') \<Rightarrow> (Inl e, w')
      | (Inr cfg, w') \<Rightarrow> (getCustodyStatus h cfg date, w'))"


text \<open>\<open>x || dflt\<close> on an environment variable: unset and empty both give the default.\<close>

definition orDefault :: "string option \<Rightarrow> string \<Rightarrow> string" where
  "orDefault x dflt = (case x of None \<Rightarrow> dflt | Some v \<Rightarrow> if v = [] then dflt else v)"

definition transitionDescription :: "host \<Rightarrow> party \<Rightarrow> date \<Rightarrow> string" where
  "transitionDescription h nextStatus next =
     (if nextStatus = User
      then ''Children come to you ('' @ formatDate next @ '')''
      else ''Children go to '' @ orDefault (COPARENT_NAME h) ''co-parent'' @ '' ('' @ formatDate next @ '')'')"

text \<open>The look-ahead loop of \<open>getNextTransition\<close>, from \<open>i\<close> on; \<open>None\<close> when it runs out.\<close>

function nextTransitionLoop ::
  "host \<Rightarrow> ScheduleConfig \<Rightarrow> date \<Rightarrow> party \<Rightarrow> int \<Rightarrow> error + CustodyTransition option" where
  "nextTransitionLoop h cfg date current i =
     (if i \<le> 14 then
        (let next = addDays date i
         in case getCustodyStatus h cfg next of
              Inl e \<Rightarrow> Inl e
            | Inr nextStatus \<Rightarrow>
                if nextStatus \<noteq> current
                then Inr (Some \<lparr>ct_date = next,
                                ct_description = transitionDescription h nextStatus next\<rparr>)
                else nextTransitionLoop h cfg date current (i + 1))
      else Inr None)"
  by pat_completeness auto
termination
  by (relation "measure (\<lambda>(h, cfg, date, current, i). nat (15 - i))") auto

definition getNextTransition :: "host \<Rightarrow> ScheduleConfig \<Rightarrow> date \<Rightarrow> error + CustodyTransition" where
  "getNextTransition h cfg date =
     (case getCustodyStatus h cfg date of
        Inl e \<Rightarrow> Inl e
      | Inr current \<Rightarrow>
          (case nextTransitionLoop h cfg date current 1 of
             Inl e \<Rightarrow> Inl e
           | Inr (Some t) \<Rightarrow> Inr t
           | Inr None \<Rightarrow>
               (case dayIndex (aw_pickupDay (alternatingWeekends cfg)) of
                  Inl e \<Rightarrow> Inl e
                | Inr pickupDow \<Rightarrow>
                    (let r = jsRem (pickupDow - getDay date + 7) 7;
                         daysUntilFriday = (if r = 0 then 7 else r);
                         nextFriday = addDays date daysUntilFriday
                     in Inr \<lparr>ct_date = nextFriday,
                             ct_description = ''Next weekend: '' @ formatDate nextFriday\<rparr>))))"

definition weekNote :: "party \<Rightarrow> party \<Rightarrow> party \<Rightarrow> string" where
  "weekNote status prevStatus nextStatus =
     (if status \<noteq> prevStatus then '' (pickup)''
      else if status \<noteq> nextStatus then '' (drop-off)''
      else [])"

text \<open>One iteration of the loop of \<open>getWeekSummary\<close>: the line for day \<open>i\<close>.\<close>

definition weekLine :: "host \<Rightarrow> ScheduleConfig \<Rightarrow> date \<Rightarrow> int \<Rightarrow> error + string" where
  "weekLine h cfg date i =
     (let d = addDays date i
      in case getCustodyStatus h cfg d of
           Inl e \<Rightarrow> Inl e
         | Inr status \<Rightarrow>
             (let dayName = SHORT_DAYS ! nat (getDay d);
                  who = (if status = User then orDefault (USER_NAME h) ''You''
                         else orDefault (COPARENT_NAME h) ''Co-parent'')
              in case getCustodyStatus h cfg (addDays date (i - 1)) of
                   Inl e \<Rightarrow> Inl e
                 | Inr prevStatus \<Rightarrow>
                     (case getCustodyStatus h cfg (addDays date (i + 1)) of
                        Inl e \<Rightarrow> Inl e
                      | Inr nextStatus \<Rightarrow>
                          Inr (dayName @ '': '' @ who @ weekNote status prevStatus nextStatus))))"

function weekLoop ::
  "host \<Rightarrow> ScheduleConfig \<Rightarrow> date \<Rightarrow> int \<Rightarrow> string list \<Rightarrow> error + string list" where
  "weekLoop h cfg date i lines =
     (if i < 7 then
        (case weekLine h cfg date i of
           Inl e \<Rightarrow> Inl e
         | Inr line \<Rightarrow> weekLoop h cfg date (i + 1) (lines @ [line]))
      else Inr lines)"
  by pat_completeness auto
termination
  by (relation "measure (\<lambda>(h, cfg, date, i, lines). nat (7 - i))") auto

text \<open>\<open>lines.join("\n")\<close>.\<close>

fun joinLines :: "string list \<Rightarrow> string" where
  "joinLines [] = []"
| "joinLines [l] = l"
| "joinLines (l # m # ls) = l @ [CHR 0x0A] @ joinLines (m # ls)"

definition getWeekSummary :: "host \<Rightarrow> ScheduleConfig \<Rightarrow> date \<Rightarrow> error + string" where
  "getWeekSummary h cfg date =
     (case weekLoop h cfg date 0 [] of
        Inl e \<Rightarrow> Inl e
      | Inr lines \<Rightarrow> Inr (joinLines lines))"

subsection \<open>School calendar\<close>















text \<open>The loops are unfolded one step at a time, where a proof asks for it.\<close>

declare nextTransitionLoop.simps [simp del]

declare weekLoop.simps [simp del]

subsection \<open>Valid configurations and sample data\<close>

text \<open>A configuration is valid when its four weekday names are recognised by \<open>dayIndex\<close>.\<close>

definition validConfig :: "ScheduleConfig \<Rightarrow> bool" where
  "validConfig cfg =
     (\<not> isl (dayIndex (aw_pickupDay (alternatingWeekends cfg))) \<and>
      \<not> isl (dayIndex (aw_dropoffDay (alternatingWeekends cfg))) \<and>
      \<not> isl (dayIndex (wo_pickupDay (weekdayOvernight cfg))) \<and>
      \<not> isl (dayIndex (wo_dropoffDay (weekdayOvernight cfg))))"

text \<open>A host in Utah (Mountain Standard Time, UTC-7) and one on UTC.\<close>

definition denver :: host where
  "denver = \<lparr>tzOffset = -420, USER_NAME = None, COPARENT_NAME = None\<rparr>"

definition utc :: host where
  "utc = \<lparr>tzOffset = 0, USER_NAME = None, COPARENT_NAME = None\<rparr>"

text \<open>
  Overnight from Wednesday to Thursday with the user, weekends from Friday to Sunday
  anchored at Friday 2024-01-05, Thanksgiving with the user in even years.
\<close>

definition exampleConfig :: ScheduleConfig where
  "exampleConfig =
     \<lparr>weekdayOvernight =
        \<lparr>wo_parent = User, wo_pickupDay = ''Wednesday'', wo_dropoffDay = ''Thursday''\<rparr>,
      alternatingWeekends =
        \<lparr>aw_referenceDate = ISO 2024 1 5, aw_pickupDay = ''Friday'', aw_pickupTime = ''18:00'',
         aw_dropoffDay = ''Sunday'', aw_dropoffTime = ''18:00''\<rparr>,
      holidays =
        \<lparr>evenYearUser = [''Thanksgiving''], oddYearUser = [''July 4th''],
         alwaysUser = [''Father's Day''], alwaysCoparent = [''Mother's Day'']\<rparr>\<rparr>"

text \<open>The same, with Thanksgiving listed for the user in even and in odd years.\<close>

definition bothYearsConfig :: ScheduleConfig where
  "bothYearsConfig =
     exampleConfig\<lparr>holidays :=
       \<lparr>evenYearUser = [''Thanksgiving''], oddYearUser = [''Thanksgiving''],
        alwaysUser = [], alwaysCoparent = []\<rparr>\<rparr>"

text \<open>The same, with a misspelt pickup day.\<close>

definition typoConfig :: ScheduleConfig where
  "typoConfig =
     exampleConfig\<lparr>alternatingWeekends :=
       \<lparr>aw_referenceDate = ISO 2024 1 5, aw_pickupDay = ''Fryday'', aw_pickupTime = ''18:00'',
        aw_dropoffDay = ''Sunday'', aw_dropoffTime = ''18:00''\<rparr>\<rparr>"

text \<open>
  A configuration whose only exchange day is Monday: the weekend range and the overnight
  are both Monday, and the one coparent Monday of mid-January 2024 is a holiday of the user.
\<close>

definition mondayConfig :: ScheduleConfig where
  "mondayConfig =
     \<lparr>weekdayOvernight =
        \<lparr>wo_parent = Coparent, wo_pickupDay = ''monday'', wo_dropoffDay = ''monday''\<rparr>,
      alternatingWeekends =
        \<lparr>aw_referenceDate = ISO 2024 1 8, aw_pickupDay = ''monday'', aw_pickupTime = ''08:00'',
         aw_dropoffDay = ''monday'', aw_dropoffTime = ''20:00''\<rparr>,
      holidays =
        \<lparr>evenYearUser = [], oddYearUser = [], alwaysUser = [''MLK Day''], alwaysCoparent = []\<rparr>\<rparr>"


subsection \<open>Notions of the school-day rules\<close>










section \<open>Properties of the calendar arithmetic\<close>

subsection \<open>Years\<close>

lemma div_step:
  fixes a c :: int
  assumes "0 < c"
  shows "(a + 1) div c = a div c + (if (a + 1) mod c = 0 then 1 else 0)"
proof -
  have a: "a = c * (a div c) + a mod c" by simp
  have r: "0 \<le> a mod c" "a mod c < c" using assms by simp_all
  show ?thesis
  proof (cases "a mod c + 1 = c")
    case True
    have "c * (a div c + 1) = c * (a div c) + c" by (simp add: algebra_simps)
    with True a have e: "a + 1 = c * (a div c + 1) + 0" by linarith
    have "(a + 1) div c = a div c + 1" using int_div_pos_eq[OF e] assms by simp
    moreover have "(a + 1) mod c = 0" using int_mod_pos_eq[OF e] assms by simp
    ultimately show ?thesis by simp
  next
    case False
    then have lt: "a mod c + 1 < c" using r by linarith
    have e: "a + 1 = c * (a div c) + (a mod c + 1)" using a by linarith
    have "(a + 1) div c = a div c" using int_div_pos_eq[OF e] lt r by simp
    moreover have "(a + 1) mod c = a mod c + 1" using int_mod_pos_eq[OF e] lt r by simp
    ultimately show ?thesis using r by simp
  qed
qed

lemma mod_shift: "(a - c * k) mod c = a mod c" for a c k :: int
  using mod_mult_self2[of a c "- k"] by simp

lemma leap_mods:
  fixes y :: int
  shows "(y - 1968) mod 4 = y mod 4" "(y - 1900) mod 100 = y mod 100"
    "(y - 1600) mod 400 = y mod 400"
  using mod_shift[of y 4 492] mod_shift[of y 100 19] mod_shift[of y 400 4] by simp_all

lemma mod400_100: "y mod 400 = 0 \<Longrightarrow> y mod 100 = 0" for y :: int
  by auto

lemma mod100_4: "y mod 100 = 0 \<Longrightarrow> y mod 4 = 0" for y :: int
  by auto

lemma leap_count:
  fixes p4 p100 p400 :: bool
  assumes "p400 \<longrightarrow> p100" "p100 \<longrightarrow> p4"
  shows "(if p4 \<and> (\<not> p100 \<or> p400) then 366 else (365::int)) =
     365 + (if p4 then 1 else 0) - (if p100 then 1 else 0) + (if p400 then 1 else 0)"
  using assms by (cases p4; cases p100; cases p400; simp)

lemma year_step_arith:
  fixes y A B C i4 i100 i400 :: int
  shows "365 * (y + 1 - 1970) + (A + i4) - (B + i100) + (C + i400) =
     365 * (y - 1970) + A - B + C + (365 + i4 - i100 + i400)"
  by simp

lemma DayFromYear_Suc: "DayFromYear (y + 1) = DayFromYear y + DaysInYear y"
proof -
  have a: "(y + 1 - 1969) div 4 = (y - 1969) div 4 + (if y mod 4 = 0 then 1 else 0)"
    using div_step[of 4 "y - 1969"] leap_mods(1)[of y] by (simp add: algebra_simps)
  have b: "(y + 1 - 1901) div 100 = (y - 1901) div 100 + (if y mod 100 = 0 then 1 else 0)"
    using div_step[of 100 "y - 1901"] leap_mods(2)[of y] by (simp add: algebra_simps)
  have c: "(y + 1 - 1601) div 400 = (y - 1601) div 400 + (if y mod 400 = 0 then 1 else 0)"
    using div_step[of 400 "y - 1601"] leap_mods(3)[of y] by (simp add: algebra_simps)
  have L: "DaysInYear y = 365 + (if y mod 4 = 0 then 1 else 0)
      - (if y mod 100 = 0 then 1 else 0) + (if y mod 400 = 0 then 1 else 0)"
    unfolding DaysInYear_def InLeapYear_def
  proof (rule leap_count)
    show "y mod 400 = 0 \<longrightarrow> y mod 100 = 0" using mod400_100[of y] by blast
    show "y mod 100 = 0 \<longrightarrow> y mod 4 = 0" using mod100_4[of y] by blast
  qed
  have "DayFromYear (y + 1) = 365 * (y + 1 - 1970) + (y + 1 - 1969) div 4
      - (y + 1 - 1901) div 100 + (y + 1 - 1601) div 400"
    by (simp only: DayFromYear_def)
  also have "\<dots> = 365 * (y - 1970) + (y - 1969) div 4 - (y - 1901) div 100
      + (y - 1601) div 400 + DaysInYear y"
    unfolding a b c L by (rule year_step_arith)
  finally show ?thesis by (simp only: DayFromYear_def)
qed

lemma DaysInYear_LeapDays: "DaysInYear y = 365 + LeapDays y"
  by (simp add: DaysInYear_def LeapDays_def)

lemma LeapDays_range: "0 \<le> LeapDays y" "LeapDays y \<le> 1"
  by (simp_all add: LeapDays_def)

lemma DayFromYear_mono: "y \<le> y' \<Longrightarrow> DayFromYear y \<le> DayFromYear y'"
proof (induction y' rule: int_ge_induct)
  case base
  show ?case by simp
next
  case (step i)
  then show ?case
    using DayFromYear_Suc[of i] LeapDays_range(1)[of i] by (simp add: DaysInYear_LeapDays)
qed

lemma div_bounds:
  fixes a c :: int
  assumes "0 < c"
  shows "c * (a div c) \<le> a" "a < c * (a div c) + c"
proof -
  have a: "a = c * (a div c) + a mod c" by simp
  have r: "0 \<le> a mod c" "a mod c < c" using assms by simp_all
  show "c * (a div c) \<le> a" using a r by linarith
  show "a < c * (a div c) + c" using a r by linarith
qed

text \<open>The estimate of the year is at most one above and at most one below.\<close>

lemma est_lo_aux:
  fixes d y A B C E :: int
  assumes "146097 * E \<le> d * 400"
    and "y = 1970 + E - 1"
    and "4 * A \<le> y - 1969" and "y - 1901 < 100 * B + 100" and "400 * C \<le> y - 1601"
  shows "365 * (y - 1970) + A - B + C \<le> d"
  using assms by simp

lemma est_hi_aux:
  fixes d y A B C E :: int
  assumes "d * 400 < 146097 * E + 146097"
    and "y = 1970 + E + 2"
    and "y - 1969 < 4 * A + 4" and "100 * B \<le> y - 1901" and "y - 1601 < 400 * C + 400"
  shows "d < 365 * (y - 1970) + A - B + C"
  using assms by simp

lemma est_lo: "DayFromYear (1970 + (d * 400) div 146097 - 1) \<le> d"
proof -
  let ?E = "(d * 400) div 146097"
  let ?y = "1970 + ?E - 1"
  have 1: "146097 * ?E \<le> d * 400" by (rule div_bounds(1)) simp
  have 2: "4 * ((?y - 1969) div 4) \<le> ?y - 1969" by (rule div_bounds(1)) simp
  have 3: "?y - 1901 < 100 * ((?y - 1901) div 100) + 100" by (rule div_bounds(2)) simp
  have 4: "400 * ((?y - 1601) div 400) \<le> ?y - 1601" by (rule div_bounds(1)) simp
  show ?thesis unfolding DayFromYear_def by (rule est_lo_aux[OF 1 refl 2 3 4])
qed

lemma est_hi: "d < DayFromYear (1970 + (d * 400) div 146097 + 2)"
proof -
  let ?E = "(d * 400) div 146097"
  let ?y = "1970 + ?E + 2"
  have 1: "d * 400 < 146097 * ?E + 146097" by (rule div_bounds(2)) simp
  have 2: "?y - 1969 < 4 * ((?y - 1969) div 4) + 4" by (rule div_bounds(2)) simp
  have 3: "100 * ((?y - 1901) div 100) \<le> ?y - 1901" by (rule div_bounds(1)) simp
  have 4: "?y - 1601 < 400 * ((?y - 1601) div 400) + 400" by (rule div_bounds(2)) simp
  show ?thesis unfolding DayFromYear_def by (rule est_hi_aux[OF 1 refl 2 3 4])
qed

lemma YearFromDay_bracket:
  "DayFromYear (YearFromDay d) \<le> d \<and> d < DayFromYear (YearFromDay d + 1)"
proof -
  define y where "y = 1970 + (d * 400) div 146097"
  have lo: "DayFromYear (y - 1) \<le> d" using est_lo[of d] by (simp add: y_def)
  have hi: "d < DayFromYear (y + 1 + 1)" using est_hi[of d] by (simp add: y_def)
  have yfd: "YearFromDay d = (if d < DayFromYear y then y - 1
         else if DayFromYear (y + 1) \<le> d then y + 1 else y)"
    by (simp add: YearFromDay_def y_def Let_def)
  show ?thesis using lo hi by (simp add: yfd)
qed

lemma YearFromDay_unique:
  assumes "DayFromYear y \<le> d" "d < DayFromYear (y + 1)"
  shows "YearFromDay d = y"
proof (rule ccontr)
  assume ne: "YearFromDay d \<noteq> y"
  let ?z = "YearFromDay d"
  have b: "DayFromYear ?z \<le> d" "d < DayFromYear (?z + 1)"
    using YearFromDay_bracket[of d] by simp_all
  show False
  proof (cases "?z < y")
    case True
    then have "DayFromYear (?z + 1) \<le> DayFromYear y" by (intro DayFromYear_mono) simp
    with b assms show False by linarith
  next
    case False
    with ne have "y + 1 \<le> ?z" by simp
    then have "DayFromYear (y + 1) \<le> DayFromYear ?z" by (rule DayFromYear_mono)
    with b assms show False by linarith
  qed
qed

lemma YearFromDay_offset:
  assumes "0 \<le> t" "t < 365 + LeapDays y"
  shows "YearFromDay (DayFromYear y + t) = y"
proof (rule YearFromDay_unique)
  show "DayFromYear y \<le> DayFromYear y + t" using assms by simp
  show "DayFromYear y + t < DayFromYear (y + 1)"
    using assms by (simp add: DayFromYear_Suc DaysInYear_LeapDays)
qed

lemma DayWithinYear_range:
  "0 \<le> DayWithinYear d" "DayWithinYear d < 365 + LeapDays (YearFromDay d)"
  using YearFromDay_bracket[of d]
  by (simp_all add: DayWithinYear_def DayFromYear_Suc DaysInYear_LeapDays)

subsection \<open>Months and days of the month\<close>

lemma month_disj:
  fixes m :: int
  assumes "0 \<le> m" "m \<le> 11"
  shows "m = 0 \<or> m = 1 \<or> m = 2 \<or> m = 3 \<or> m = 4 \<or> m = 5
    \<or> m = 6 \<or> m = 7 \<or> m = 8 \<or> m = 9 \<or> m = 10 \<or> m = 11"
  using assms by arith

lemma month_cases:
  fixes m :: int
  assumes "0 \<le> m" "m \<le> 11"
  obtains "m = 0" | "m = 1" | "m = 2" | "m = 3" | "m = 4" | "m = 5"
    | "m = 6" | "m = 7" | "m = 8" | "m = 9" | "m = 10" | "m = 11"
  using month_disj[OF assms] by blast

lemma MonthOfYearDay_MonthStart:
  assumes m: "0 \<le> m" "m \<le> 11" and L: "0 \<le> L" "L \<le> 1"
    and k: "0 \<le> k" "k < MonthLength m L"
  shows "MonthOfYearDay (MonthStart m L + k) L = m"
  using m
proof (cases m rule: month_cases)
qed (use L k in \<open>simp_all add: MonthStart_def MonthOfYearDay_def MonthLength_def\<close>)

lemma MonthStart_in_year:
  assumes m: "0 \<le> m" "m \<le> 11" and L: "0 \<le> L" "L \<le> 1"
    and k: "0 \<le> k" "k \<le> 30"
  shows "0 \<le> MonthStart m L + k" "MonthStart m L + k < 365 + L"
  using m
proof (cases m rule: month_cases)
qed (use L k in \<open>simp_all add: MonthStart_def\<close>)

lemma MonthStart_next:
  assumes m: "0 \<le> m" "m \<le> 10"
  shows "MonthStart (m + 1) L = MonthStart m L + MonthLength m L"
proof -
  have "0 \<le> m" "m \<le> 11" using m by simp_all
  then show ?thesis
  proof (cases m rule: month_cases)
  qed (use m in \<open>simp_all add: MonthStart_def MonthLength_def\<close>)
qed

lemma MonthOfYearDay_range:
  "0 \<le> MonthOfYearDay t L" "MonthOfYearDay t L \<le> 11"
  by (simp_all add: MonthOfYearDay_def)

lemma MonthOfYearDay_bracket:
  assumes L: "0 \<le> L" "L \<le> 1" and t: "0 \<le> t" "t < 365 + L"
  shows "MonthStart (MonthOfYearDay t L) L \<le> t"
    "t < MonthStart (MonthOfYearDay t L) L + MonthLength (MonthOfYearDay t L) L"
  using L t by (simp_all add: MonthOfYearDay_def MonthStart_def MonthLength_def)

lemma MonthLength_range: "28 \<le> MonthLength m (LeapDays y)" "MonthLength m (LeapDays y) \<le> 31"
  using LeapDays_range[of y] by (simp_all add: MonthLength_def)

lemma getMonth_range: "0 \<le> getMonth d" "getMonth d \<le> 11"
  by (simp_all add: getMonth_def MonthOfYearDay_range)

lemma getDate_range:
  "1 \<le> getDate d" "getDate d \<le> MonthLength (getMonth d) (LeapDays (getFullYear d))"
  using MonthOfYearDay_bracket[OF LeapDays_range DayWithinYear_range, of d]
  by (simp_all add: getDate_def getMonth_def getFullYear_def)

lemma getDate_le_31: "getDate d \<le> 31"
  using getDate_range(2)[of d] MonthLength_range(2)[of "getMonth d" "getFullYear d"]
  by linarith

lemma getDay_range: "0 \<le> getDay d" "getDay d \<le> 6"
  by (simp_all add: getDay_def)

lemma getDay_add: "getDay (d + k) = (getDay d + k) mod 7"
  by (simp add: getDay_def mod_simps algebra_simps)

subsection \<open>Building a date and reading it back\<close>

lemma MakeDay_norm:
  assumes "0 \<le> m" "m \<le> 11"
  shows "MakeDay y m dt = DayFromYear y + MonthStart m (LeapDays y) + dt - 1"
proof -
  have "m div 12 = 0" "m mod 12 = m" using assms by simp_all
  then show ?thesis by (simp add: MakeDay_def)
qed

lemma MakeDay_add: "MakeDay y m (dt + n) = MakeDay y m dt + n"
  by (simp add: MakeDay_def Let_def)

lemma MakeDay_fields: "MakeDay (getFullYear d) (getMonth d) (getDate d + n) = d + n"
  by (simp add: MakeDay_norm getMonth_range getDate_def getFullYear_def DayWithinYear_def)

lemma getFullYear_MakeDay:
  assumes m: "0 \<le> m" "m \<le> 11" and dt: "1 \<le> dt" "dt \<le> 31"
  shows "getFullYear (MakeDay y m dt) = y"
proof -
  have k: "0 \<le> dt - 1" "dt - 1 \<le> 30" using dt by simp_all
  have "MakeDay y m dt = DayFromYear y + (MonthStart m (LeapDays y) + (dt - 1))"
    by (simp add: MakeDay_norm m)
  then show ?thesis
    using MonthStart_in_year[OF m LeapDays_range k, of y]
    by (simp only: getFullYear_def YearFromDay_offset)
qed

lemma fields_MakeDay:
  assumes m: "0 \<le> m" "m \<le> 11" and dt: "1 \<le> dt" "dt \<le> MonthLength m (LeapDays y)"
  shows "getFullYear (MakeDay y m dt) = y" "getMonth (MakeDay y m dt) = m"
    "getDate (MakeDay y m dt) = dt"
proof -
  have dt31: "dt \<le> 31" using dt(2) MonthLength_range(2)[of m y] by linarith
  show y: "getFullYear (MakeDay y m dt) = y" by (rule getFullYear_MakeDay[OF m dt(1) dt31])
  have e: "MakeDay y m dt = DayFromYear y + (MonthStart m (LeapDays y) + (dt - 1))"
    by (simp add: MakeDay_norm m)
  have w: "DayWithinYear (MakeDay y m dt) = MonthStart m (LeapDays y) + (dt - 1)"
    using y by (simp add: DayWithinYear_def getFullYear_def e)
  have k: "0 \<le> dt - 1" "dt - 1 < MonthLength m (LeapDays y)" using dt by simp_all
  show mo: "getMonth (MakeDay y m dt) = m"
    using y MonthOfYearDay_MonthStart[OF m LeapDays_range k]
    by (simp add: getMonth_def w getFullYear_def)
  show "getDate (MakeDay y m dt) = dt"
    using y mo by (simp add: getDate_def w getFullYear_def)
qed

lemma MakeDay_month_end:
  assumes m: "0 \<le> m" "m \<le> 11"
  shows "MakeDay y (m + 1) 0 = MakeDay y m (MonthLength m (LeapDays y))"
proof (cases "m = 11")
  case True
  have "MakeDay y 12 0 = DayFromYear (y + 1) - 1"
    by (simp add: MakeDay_def MonthStart_def)
  then show ?thesis
    using True
    by (simp add: MakeDay_norm DayFromYear_Suc DaysInYear_LeapDays MonthStart_def MonthLength_def)
next
  case False
  then have m': "0 \<le> m" "m \<le> 10" using m by simp_all
  have "0 \<le> m + 1" "m + 1 \<le> 11" using m' by simp_all
  then show ?thesis
    by (simp add: MakeDay_norm m MonthStart_next[OF m'])
qed


subsection \<open>The Date helpers of the module\<close>

lemma fullYear_outside: "\<not> (0 \<le> fullYear y \<and> fullYear y \<le> 99)"
  by (simp add: fullYear_def)

lemma fullYear_id: "\<not> (0 \<le> y \<and> y \<le> 99) \<Longrightarrow> fullYear y = y"
  by (simp add: fullYear_def)

lemma fullYear_idem: "fullYear (fullYear y) = fullYear y"
  by (simp add: fullYear_def)

lemma newDate_add: "newDate y m (dt + n) = newDate y m dt + n"
  by (simp add: newDate_def MakeDay_add)

lemma addDays_eq: "addDays d n = d + n"
  by (simp add: addDays_def MakeDay_fields)

lemma startOfDay_id:
  assumes "\<not> (0 \<le> getFullYear d \<and> getFullYear d \<le> 99)"
  shows "startOfDay d = d"
  using MakeDay_fields[of d 0] by (simp add: startOfDay_def newDate_def fullYear_id[OF assms])

lemma getFullYear_startOfDay: "getFullYear (startOfDay d) = fullYear (getFullYear d)"
  unfolding startOfDay_def newDate_def
  by (rule getFullYear_MakeDay[OF getMonth_range getDate_range(1) getDate_le_31])

lemma startOfDay_idem: "startOfDay (startOfDay d) = startOfDay d"
  by (rule startOfDay_id) (simp add: getFullYear_startOfDay fullYear_outside)

lemma diffDays_startOfDay:
  assumes "\<not> (0 \<le> getFullYear b \<and> getFullYear b \<le> 99)"
  shows "diffDays (startOfDay a) b = startOfDay a - b"
  by (simp add: diffDays_def startOfDay_idem startOfDay_id[OF assms])

lemma jsRem_nonneg: "0 \<le> a \<Longrightarrow> 0 < b \<Longrightarrow> jsRem a b = a mod b"
  by (simp add: jsRem_def)

lemma jsRem_2_even: "jsRem a 2 = 0 \<longleftrightarrow> even a"
  by (simp add: jsRem_def flip: even_iff_mod_2_eq_zero)

section \<open>Holiday dates\<close>

subsection \<open>Nth and last weekday of a month\<close>

lemma weekday_offset:
  assumes "0 \<le> w" "w \<le> 6"
  shows "jsRem (w - getDay d + 7) 7 = (w - getDay d) mod 7"
proof -
  have "0 \<le> w - getDay d + 7" using assms getDay_range[of d] by linarith
  then have "jsRem (w - getDay d + 7) 7 = (w - getDay d + 7) mod 7"
    by (simp add: jsRem_nonneg)
  then show ?thesis by simp
qed

lemma nthWeekday_eq:
  assumes "0 \<le> w" "w \<le> 6"
  shows "nthWeekday y m w n =
    newDate y m 1 + (w - getDay (newDate y m 1)) mod 7 + (n - 1) * 7"
proof -
  have "nthWeekday y m w n =
      newDate y m (1 + ((w - getDay (newDate y m 1)) mod 7 + (n - 1) * 7))"
    by (simp add: nthWeekday_def Let_def weekday_offset[OF assms] add.assoc)
  also have "\<dots> = newDate y m 1 + ((w - getDay (newDate y m 1)) mod 7 + (n - 1) * 7)"
    by (rule newDate_add)
  finally show ?thesis by simp
qed

lemma getDay_forward:
  assumes "0 \<le> w" "w \<le> 6"
  shows "getDay (d + (w - getDay d) mod 7) = w"
proof -
  have "getDay (d + (w - getDay d) mod 7) = (getDay d + (w - getDay d) mod 7) mod 7"
    by (rule getDay_add)
  also have "\<dots> = (getDay d + (w - getDay d)) mod 7" by (simp add: mod_simps)
  also have "\<dots> = w" using assms by simp
  finally show ?thesis .
qed


text \<open>Two days with the same weekday are a multiple of seven apart.\<close>

lemma getDay_eq_dvd: "getDay a = getDay b \<Longrightarrow> 7 dvd (a - b)"
proof -
  assume "getDay a = getDay b"
  then have "(a + 4) mod 7 = (b + 4) mod 7" by (simp add: getDay_def)
  then have "7 dvd (a + 4) - (b + 4)" by (rule mod_eq_dvd_iff[THEN iffD1])
  then show ?thesis by simp
qed

lemma no_weekday_between:
  assumes "getDay a = getDay b" "a \<le> b" "b - a < 7"
  shows "a = b"
proof -
  have "7 dvd (b - a)" using getDay_eq_dvd[of b a] assms(1) by simp
  then obtain k where k: "b - a = 7 * k" by (auto simp: dvd_def)
  have "0 \<le> 7 * k" "7 * k < 7" using assms k by linarith+
  then have "k = 0" by simp
  with k show ?thesis by simp
qed

lemma last_day_of_month:
  assumes m: "0 \<le> m" "m \<le> 11"
  shows "newDate y (m + 1) 0 = MakeDay (fullYear y) m (MonthLength m (LeapDays (fullYear y)))"
  by (simp add: newDate_def MakeDay_month_end[OF m])

lemma last_day_fields:
  assumes m: "0 \<le> m" "m \<le> 11"
  shows "getFullYear (newDate y (m + 1) 0) = fullYear y"
    "getMonth (newDate y (m + 1) 0) = m"
    "getDate (newDate y (m + 1) 0) = MonthLength m (LeapDays (fullYear y))"
proof -
  have dt: "1 \<le> MonthLength m (LeapDays (fullYear y))"
    "MonthLength m (LeapDays (fullYear y)) \<le> MonthLength m (LeapDays (fullYear y))"
    using MonthLength_range(1)[of m "fullYear y"] by simp_all
  show "getFullYear (newDate y (m + 1) 0) = fullYear y"
    "getMonth (newDate y (m + 1) 0) = m"
    "getDate (newDate y (m + 1) 0) = MonthLength m (LeapDays (fullYear y))"
    unfolding last_day_of_month[OF m] by (rule fields_MakeDay[OF m dt])+
qed

lemma lastWeekday_eq:
  assumes w: "0 \<le> w" "w \<le> 6" and m: "0 \<le> m" "m \<le> 11"
  shows "lastWeekday y m w =
    newDate y (m + 1) 0 - (getDay (newDate y (m + 1) 0) - w) mod 7"
proof -
  let ?last = "newDate y (m + 1) 0"
  have r: "jsRem (getDay ?last - w + 7) 7 = (getDay ?last - w) mod 7"
  proof -
    have "0 \<le> getDay ?last - w + 7" using w getDay_range[of ?last] by linarith
    then have "jsRem (getDay ?last - w + 7) 7 = (getDay ?last - w + 7) mod 7"
      by (simp add: jsRem_nonneg)
    then show ?thesis by simp
  qed
  have "lastWeekday y m w = newDate y m (getDate ?last + - ((getDay ?last - w) mod 7))"
    by (simp add: lastWeekday_def Let_def r)
  also have "\<dots> = newDate y m (getDate ?last) + - ((getDay ?last - w) mod 7)"
    by (rule newDate_add)
  also have "newDate y m (getDate ?last) = ?last"
  proof -
    have "newDate y m (getDate ?last) = newDate y m (MonthLength m (LeapDays (fullYear y)))"
      by (simp only: last_day_fields(3)[OF m])
    also have "\<dots> = MakeDay (fullYear y) m (MonthLength m (LeapDays (fullYear y)))"
      by (simp only: newDate_def)
    finally show ?thesis by (simp only: last_day_of_month[OF m])
  qed
  finally show ?thesis by simp
qed

subsection \<open>Calendar fields of the holiday dates\<close>

lemma newDate_fields:
  assumes m: "0 \<le> m" "m \<le> 11" and dt: "1 \<le> dt" "dt \<le> 28"
  shows "getFullYear (newDate y m dt) = fullYear y" "getMonth (newDate y m dt) = m"
    "getDate (newDate y m dt) = dt"
proof -
  have dt': "dt \<le> MonthLength m (LeapDays (fullYear y))"
    using dt(2) MonthLength_range(1)[of m "fullYear y"] by linarith
  show "getFullYear (newDate y m dt) = fullYear y" "getMonth (newDate y m dt) = m"
    "getDate (newDate y m dt) = dt"
    unfolding newDate_def by (rule fields_MakeDay[OF m dt(1) dt'])+
qed

lemma nthWeekday_fields:
  assumes w: "0 \<le> w" "w \<le> 6" and m: "0 \<le> m" "m \<le> 11" and n: "1 \<le> n" "n \<le> 4"
  shows "getFullYear (nthWeekday y m w n) = fullYear y" "getMonth (nthWeekday y m w n) = m"
    "7 * n - 6 \<le> getDate (nthWeekday y m w n)" "getDate (nthWeekday y m w n) \<le> 7 * n"
proof -
  define k where "k = (w - getDay (newDate y m 1)) mod 7"
  have k: "0 \<le> k" "k \<le> 6" by (simp_all add: k_def)
  define dt where "dt = 1 + k + (n - 1) * 7"
  have e: "nthWeekday y m w n = newDate y m dt"
    using newDate_add[of y m 1 "k + (n - 1) * 7"]
    by (simp add: nthWeekday_eq[OF w] k_def dt_def add.assoc)
  have dt: "1 \<le> dt" "dt \<le> 28" "7 * n - 6 \<le> dt" "dt \<le> 7 * n"
    using k n by (simp_all add: dt_def)
  show "getFullYear (nthWeekday y m w n) = fullYear y" "getMonth (nthWeekday y m w n) = m"
    "7 * n - 6 \<le> getDate (nthWeekday y m w n)" "getDate (nthWeekday y m w n) \<le> 7 * n"
    using dt(3,4) by (simp_all add: e newDate_fields[OF m dt(1,2)])
qed

lemma lastWeekday_fields:
  assumes w: "0 \<le> w" "w \<le> 6" and m: "0 \<le> m" "m \<le> 11"
  shows "getFullYear (lastWeekday y m w) = fullYear y" "getMonth (lastWeekday y m w) = m"
    "MonthLength m (LeapDays (fullYear y)) - 6 \<le> getDate (lastWeekday y m w)"
    "getDate (lastWeekday y m w) \<le> MonthLength m (LeapDays (fullYear y))"
proof -
  define k where "k = (getDay (newDate y (m + 1) 0) - w) mod 7"
  have k: "0 \<le> k" "k \<le> 6" by (simp_all add: k_def)
  define dt where "dt = MonthLength m (LeapDays (fullYear y)) - k"
  have "lastWeekday y m w = newDate y (m + 1) 0 - k"
    by (simp only: lastWeekday_eq[OF w m] k_def)
  also have "\<dots> = MakeDay (fullYear y) m (MonthLength m (LeapDays (fullYear y))) - k"
    by (simp only: last_day_of_month[OF m])
  also have "\<dots> = MakeDay (fullYear y) m dt"
    using MakeDay_add[of "fullYear y" m "MonthLength m (LeapDays (fullYear y))" "- k"]
    by (simp add: dt_def)
  finally have e: "lastWeekday y m w = MakeDay (fullYear y) m dt" .
  have dt: "1 \<le> dt" "dt \<le> MonthLength m (LeapDays (fullYear y))"
    using k MonthLength_range(1)[of m "fullYear y"] by (simp_all add: dt_def)
  have dt6: "MonthLength m (LeapDays (fullYear y)) - 6 \<le> dt"
    using k by (simp add: dt_def)
  show "getFullYear (lastWeekday y m w) = fullYear y" "getMonth (lastWeekday y m w) = m"
    "MonthLength m (LeapDays (fullYear y)) - 6 \<le> getDate (lastWeekday y m w)"
    "getDate (lastWeekday y m w) \<le> MonthLength m (LeapDays (fullYear y))"
    using dt6 dt(2) by (simp_all add: e fields_MakeDay[OF m dt])
qed

text \<open>
  Every holiday of a year lies in that year, in the month and the range of days of the
  month listed beside it: the fourteen windows are pairwise disjoint.
\<close>

lemma getUtahHolidayDates_windows:
  "list_all2 (\<lambda>(name, d) (m, lo, hi).
       getFullYear d = fullYear y \<and> getMonth d = m \<and> lo \<le> getDate d \<and> getDate d \<le> hi)
     (getUtahHolidayDates y)
     [(0, 1, 1), (0, 15, 21), (1, 15, 21), (2, 15, 21), (4, 25, 31), (5, 15, 21), (4, 8, 14),
      (6, 4, 4), (6, 24, 24), (8, 1, 7), (9, 15, 21), (10, 22, 28), (11, 24, 24), (11, 26, 26)]"
proof -
  have mem: "MonthLength 4 (LeapDays (fullYear y)) = 31" by (simp add: MonthLength_def)
  show ?thesis
    unfolding getUtahHolidayDates_def
    using nthWeekday_fields[of 1 0 3 y] nthWeekday_fields[of 1 1 3 y]
      nthWeekday_fields[of 1 2 3 y] lastWeekday_fields[of 1 4 y]
      nthWeekday_fields[of 0 5 3 y] nthWeekday_fields[of 0 4 2 y]
      nthWeekday_fields[of 1 8 1 y] nthWeekday_fields[of 4 9 3 y]
      nthWeekday_fields[of 4 10 4 y]
    by (simp add: newDate_fields mem)
qed

lemma same_fields_same_day:
  assumes "getFullYear a = getFullYear b" "getMonth a = getMonth b" "getDate a = getDate b"
  shows "a = b"
  using MakeDay_fields[of a 0] MakeDay_fields[of b 0] assms by simp

section \<open>The claims\<close>

subsection \<open>Weekday names and the weekend range\<close>

lemma toLowerCase_days:
  "toLowerCase ''Sunday'' = ''sunday''" "toLowerCase ''Monday'' = ''monday''"
  "toLowerCase ''Tuesday'' = ''tuesday''" "toLowerCase ''Wednesday'' = ''wednesday''"
  "toLowerCase ''Thursday'' = ''thursday''" "toLowerCase ''Friday'' = ''friday''"
  "toLowerCase ''Saturday'' = ''saturday''" "toLowerCase ''monday'' = ''monday''"
  "toLowerCase ''Fryday'' = ''fryday''"
  by (simp_all add: toLowerCase_def toLowerChar_def)

lemma dayIndex_names:
  "dayIndex ''Sunday'' = Inr 0" "dayIndex ''Monday'' = Inr 1" "dayIndex ''Tuesday'' = Inr 2"
  "dayIndex ''Wednesday'' = Inr 3" "dayIndex ''Thursday'' = Inr 4" "dayIndex ''Friday'' = Inr 5"
  "dayIndex ''Saturday'' = Inr 6" "dayIndex ''monday'' = Inr 1"
  "dayIndex ''Fryday'' = Inl (InvalidDayName ''Fryday'')"
  by (simp_all add: dayIndex_def toLowerCase_days DAYS_def)

lemma indexOf_range: "indexOf xs x = -1 \<or> (0 \<le> indexOf xs x \<and> indexOf xs x < int (length xs))"
  by (induction xs) (auto simp: Let_def)

lemma dayIndex_range:
  assumes "dayIndex name = Inr i"
  shows "0 \<le> i" "i \<le> 6"
proof -
  have "indexOf DAYS (toLowerCase name) = i" "indexOf DAYS (toLowerCase name) \<noteq> -1"
    using assms by (simp_all add: dayIndex_def Let_def split: if_splits)
  then have "0 \<le> i \<and> i < int (length DAYS)"
    using indexOf_range[of DAYS "toLowerCase name"] by simp
  then show "0 \<le> i" "i \<le> 6" by (simp_all add: DAYS_def)
qed

lemma dayIndex_error: "dayIndex name = Inl e \<Longrightarrow> e = InvalidDayName name"
  by (simp add: dayIndex_def Let_def split: if_splits)

lemma mod7_small:
  fixes a :: int
  assumes "- 7 < a" "a < 7"
  shows "a mod 7 = (if a < 0 then a + 7 else a)"
proof (cases "a < 0")
  case True
  have "a mod 7 = (a + 7) mod 7" by simp
  also have "\<dots> = a + 7" using assms True by (intro mod_pos_pos_trivial) simp_all
  finally show ?thesis using True by simp
next
  case False
  then show ?thesis using assms by simp
qed

lemma isDayInRange_cyclic:
  assumes "0 \<le> w" "w \<le> 6" "0 \<le> p" "p \<le> 6" "0 \<le> q" "q \<le> 6"
  shows "isDayInRange w p q \<longleftrightarrow> (w - p) mod 7 \<le> (q - p) mod 7"
proof -
  have a: "(w - p) mod 7 = (if w - p < 0 then w - p + 7 else w - p)"
    using assms by (intro mod7_small) simp_all
  have b: "(q - p) mod 7 = (if q - p < 0 then q - p + 7 else q - p)"
    using assms by (intro mod7_small) simp_all
  show ?thesis
    unfolding a b isDayInRange_def using assms by (simp split: if_splits)
qed

lemma weekday_disj:
  fixes w :: int
  assumes "0 \<le> w" "w \<le> 6"
  shows "w = 0 \<or> w = 1 \<or> w = 2 \<or> w = 3 \<or> w = 4 \<or> w = 5 \<or> w = 6"
  using assms by arith

text \<open>
  C3 as stated calls the Friday..Sunday range non-wrapping.  With Sunday numbered 0 and
  Friday 5 the range runs from 5 to 0: Saturday is in it by the wrapping branch only, and
  the plain numeric test \<open>5 \<le> w \<and> w \<le> 0\<close> would put it outside.
\<close>

theorem C3_friday_sunday_wraps:
  "dayIndex ''Friday'' = Inr 5 \<and> dayIndex ''Sunday'' = Inr 0 \<and> \<not> ((5::int) \<le> 0) \<and>
   isDayInRange 6 5 0 \<and> \<not> ((5::int) \<le> 6 \<and> (6::int) \<le> 0)"
  by (simp add: dayIndex_names isDayInRange_def)

text \<open>
  C3 (amended): the containment test of the weekend range is the cyclic interval from
  pickup \<open>p\<close> to dropoff \<open>q\<close>: for \<open>p \<le> q\<close> it holds iff \<open>p \<le> w \<le> q\<close>, for \<open>p > q\<close> iff
  \<open>w \<ge> p\<close> or \<open>w \<le> q\<close>; on weekdays 0..6 that is: \<open>w\<close> is reached from \<open>p\<close> going forward
  no later than \<open>q\<close>.  The Friday..Sunday range (5 to 0) and the Saturday..Monday range
  (6 to 1) both wrap, and each contains exactly its three days; the Monday..Wednesday
  range does not wrap and contains exactly its three days.
\<close>

theorem C3_isDayInRange_cyclic_interval:
  "(p \<le> q \<longrightarrow> (isDayInRange w p q \<longleftrightarrow> p \<le> w \<and> w \<le> q)) \<and>
   (q < p \<longrightarrow> (isDayInRange w p q \<longleftrightarrow> p \<le> w \<or> w \<le> q)) \<and>
   (0 \<le> w \<and> w \<le> 6 \<and> 0 \<le> p \<and> p \<le> 6 \<and> 0 \<le> q \<and> q \<le> 6 \<longrightarrow>
      (isDayInRange w p q \<longleftrightarrow> (w - p) mod 7 \<le> (q - p) mod 7)) \<and>
   dayIndex ''Friday'' = Inr 5 \<and> dayIndex ''Sunday'' = Inr 0 \<and>
   dayIndex ''Saturday'' = Inr 6 \<and> dayIndex ''Monday'' = Inr 1 \<and>
   dayIndex ''Wednesday'' = Inr 3 \<and>
   (0 \<le> w \<and> w \<le> 6 \<longrightarrow>
      (isDayInRange w 5 0 \<longleftrightarrow> w = 5 \<or> w = 6 \<or> w = 0) \<and>
      (isDayInRange w 6 1 \<longleftrightarrow> w = 6 \<or> w = 0 \<or> w = 1) \<and>
      (isDayInRange w 1 3 \<longleftrightarrow> w = 1 \<or> w = 2 \<or> w = 3))"
proof -
  have days: "0 \<le> w \<and> w \<le> 6 \<longrightarrow>
      (isDayInRange w 5 0 \<longleftrightarrow> w = 5 \<or> w = 6 \<or> w = 0) \<and>
      (isDayInRange w 6 1 \<longleftrightarrow> w = 6 \<or> w = 0 \<or> w = 1) \<and>
      (isDayInRange w 1 3 \<longleftrightarrow> w = 1 \<or> w = 2 \<or> w = 3)"
  proof
    assume "0 \<le> w \<and> w \<le> 6"
    then have "w = 0 \<or> w = 1 \<or> w = 2 \<or> w = 3 \<or> w = 4 \<or> w = 5 \<or> w = 6"
      using weekday_disj[of w] by simp
    then show "(isDayInRange w 5 0 \<longleftrightarrow> w = 5 \<or> w = 6 \<or> w = 0) \<and>
      (isDayInRange w 6 1 \<longleftrightarrow> w = 6 \<or> w = 0 \<or> w = 1) \<and>
      (isDayInRange w 1 3 \<longleftrightarrow> w = 1 \<or> w = 2 \<or> w = 3)"
      by (elim disjE) (simp_all add: isDayInRange_def)
  qed
  have cyc: "0 \<le> w \<and> w \<le> 6 \<and> 0 \<le> p \<and> p \<le> 6 \<and> 0 \<le> q \<and> q \<le> 6 \<longrightarrow>
      (isDayInRange w p q \<longleftrightarrow> (w - p) mod 7 \<le> (q - p) mod 7)"
    using isDayInRange_cyclic[of w p q] by blast
  have lin: "(p \<le> q \<longrightarrow> (isDayInRange w p q \<longleftrightarrow> p \<le> w \<and> w \<le> q)) \<and>
      (q < p \<longrightarrow> (isDayInRange w p q \<longleftrightarrow> p \<le> w \<or> w \<le> q))"
    by (simp add: isDayInRange_def)
  show ?thesis using lin cyc days by (simp only: dayIndex_names) blast
qed

theorem C3_isDayInRange_witness:
  "(isDayInRange 6 1 3 \<longleftrightarrow> (1::int) \<le> 6 \<and> (6::int) \<le> 3) \<and>
   (isDayInRange 6 5 0 \<longleftrightarrow> (5::int) \<le> 6 \<or> (6::int) \<le> 0) \<and>
   (isDayInRange 0 6 1 \<longleftrightarrow> ((0::int) - 6) mod 7 \<le> (1 - 6) mod 7) \<and>
   isDayInRange 0 5 0 \<and> isDayInRange 0 6 1 \<and> \<not> isDayInRange 0 1 3"
  using C3_isDayInRange_cyclic_interval[of 1 3 6] C3_isDayInRange_cyclic_interval[of 5 0 6]
    C3_isDayInRange_cyclic_interval[of 0 6 1] C3_isDayInRange_cyclic_interval[of 0 5 0]
  by simp

subsection \<open>Holiday assignment\<close>

text \<open>
  C5 as stated makes a holiday of \<open>evenYearUser\<close> the coparent's in 2025 whenever no
  always-list names it.  With Thanksgiving in both rotation lists it is the user's in 2025.
\<close>

theorem C5_both_lists_counterexample:
  "''Thanksgiving'' \<in> set (evenYearUser (holidays bothYearsConfig)) \<and>
   ''Thanksgiving'' \<notin> set (alwaysUser (holidays bothYearsConfig)) \<and>
   ''Thanksgiving'' \<notin> set (alwaysCoparent (holidays bothYearsConfig)) \<and>
   holidayParent bothYearsConfig ''Thanksgiving'' 2024 = User \<and>
   holidayParent bothYearsConfig ''Thanksgiving'' 2025 = User"
  by (simp add: bothYearsConfig_def exampleConfig_def holidayParent_def jsRem_def)

lemma holidayLoop_parent:
  "a \<in> set (holidayLoop cfg date year hs) \<Longrightarrow> ha_parent a = holidayParent cfg (ha_name a) year"
  by (induction hs) (auto split: if_splits)

text \<open>
  C5 (amended): the party of a holiday is user if the name is in \<open>alwaysUser\<close>; else
  coparent if it is in \<open>alwaysCoparent\<close>; else, in an even year, user iff the name is in
  \<open>evenYearUser\<close>, and in an odd year, user iff it is in \<open>oddYearUser\<close>; every assignment
  the engine produces for a date carries that party.  A holiday of \<open>evenYearUser\<close> that is
  in neither always-list is the user's in 2024, and the coparent's in 2025 provided it is
  not also listed in \<open>oddYearUser\<close>.
\<close>

theorem C5_holiday_priority_chain:
  "holidayParent cfg name year =
     (if name \<in> set (alwaysUser (holidays cfg)) then User
      else if name \<in> set (alwaysCoparent (holidays cfg)) then Coparent
      else if even year then (if name \<in> set (evenYearUser (holidays cfg)) then User else Coparent)
      else (if name \<in> set (oddYearUser (holidays cfg)) then User else Coparent)) \<and>
   (\<forall>a \<in> set (getHolidayAssignmentsForDate cfg date).
      ha_parent a = holidayParent cfg (ha_name a) (getFullYear date)) \<and>
   (name \<in> set (evenYearUser (holidays cfg)) \<and> name \<notin> set (alwaysUser (holidays cfg)) \<and>
    name \<notin> set (alwaysCoparent (holidays cfg)) \<longrightarrow>
      holidayParent cfg name 2024 = User \<and>
      (name \<notin> set (oddYearUser (holidays cfg)) \<longrightarrow> holidayParent cfg name 2025 = Coparent))"
proof -
  have chain: "holidayParent cfg name y =
     (if name \<in> set (alwaysUser (holidays cfg)) then User
      else if name \<in> set (alwaysCoparent (holidays cfg)) then Coparent
      else if even y then (if name \<in> set (evenYearUser (holidays cfg)) then User else Coparent)
      else (if name \<in> set (oddYearUser (holidays cfg)) then User else Coparent))" for y
    by (simp add: holidayParent_def jsRem_2_even)
  have loop: "\<forall>a \<in> set (getHolidayAssignmentsForDate cfg date).
      ha_parent a = holidayParent cfg (ha_name a) (getFullYear date)"
    by (simp add: getHolidayAssignmentsForDate_def Let_def holidayLoop_parent)
  have years: "name \<in> set (evenYearUser (holidays cfg)) \<and> name \<notin> set (alwaysUser (holidays cfg)) \<and>
    name \<notin> set (alwaysCoparent (holidays cfg)) \<longrightarrow>
      holidayParent cfg name 2024 = User \<and>
      (name \<notin> set (oddYearUser (holidays cfg)) \<longrightarrow> holidayParent cfg name 2025 = Coparent)"
    by (simp add: chain)
  show ?thesis using chain[of year] loop years by blast
qed

lemma thanksgiving_2024:
  "map ha_name (getHolidayAssignmentsForDate exampleConfig (newDate 2024 10 28)) = [''Thanksgiving'']"
  by code_simp

theorem C5_holiday_priority_witness:
  "''Thanksgiving'' \<in> set (evenYearUser (holidays exampleConfig)) \<and>
   ''Thanksgiving'' \<notin> set (alwaysUser (holidays exampleConfig)) \<and>
   ''Thanksgiving'' \<notin> set (alwaysCoparent (holidays exampleConfig)) \<and>
   ''Thanksgiving'' \<notin> set (oddYearUser (holidays exampleConfig)) \<and>
   holidayParent exampleConfig ''Thanksgiving'' 2024 = User \<and>
   holidayParent exampleConfig ''Thanksgiving'' 2025 = Coparent \<and>
   getHolidayAssignmentsForDate exampleConfig (newDate 2024 10 28) \<noteq> [] \<and>
   list_all (\<lambda>a. ha_parent a = holidayParent exampleConfig (ha_name a) 2024)
     (getHolidayAssignmentsForDate exampleConfig (newDate 2024 10 28))"
proof -
  have y: "getFullYear (newDate 2024 10 28) = 2024"
    using newDate_fields(1)[of 10 28 2024] by (simp add: fullYear_def)
  have ne: "getHolidayAssignmentsForDate exampleConfig (newDate 2024 10 28) \<noteq> []"
    using thanksgiving_2024 by auto
  have mem: "''Thanksgiving'' \<in> set (evenYearUser (holidays exampleConfig))"
    "''Thanksgiving'' \<notin> set (alwaysUser (holidays exampleConfig))"
    "''Thanksgiving'' \<notin> set (alwaysCoparent (holidays exampleConfig))"
    "''Thanksgiving'' \<notin> set (oddYearUser (holidays exampleConfig))"
    by (simp_all add: exampleConfig_def)
  show ?thesis
    using C5_holiday_priority_chain[of exampleConfig "''Thanksgiving''" 2024 "newDate 2024 10 28"]
      mem ne
    by (simp add: y list_all_iff)
qed

subsection \<open>Floating holidays\<close>





subsection \<open>Which holiday falls on a day\<close>

lemma holidayLoop_filter:
  "holidayLoop cfg date year hs =
     map (\<lambda>(name, hday). \<lparr>ha_name = name, ha_date = hday, ha_parent = holidayParent cfg name year\<rparr>)
       (filter (\<lambda>(name, hday). diffDays date hday = 0) hs)"
  by (induction hs) auto

lemma getUtahHolidayDates_keys:
  "list_all2 (\<lambda>(name, d) (lo, hi). lo \<le> getMonth d * 32 + getDate d \<and> getMonth d * 32 + getDate d \<le> hi)
     (getUtahHolidayDates y)
     [(1, 1), (15, 21), (47, 53), (79, 85), (153, 159), (175, 181), (136, 142),
      (196, 196), (216, 216), (257, 263), (303, 309), (342, 348), (376, 376), (378, 378)]"
  using getUtahHolidayDates_windows[of y] unfolding getUtahHolidayDates_def by simp

lemma getUtahHolidayDates_distinct: "distinct (map snd (getUtahHolidayDates y))"
proof -
  have "distinct (map (\<lambda>d. getMonth d * 32 + getDate d) (map snd (getUtahHolidayDates y)))"
    using getUtahHolidayDates_keys[of y] unfolding getUtahHolidayDates_def by simp
  then show ?thesis by (simp only: distinct_map)
qed

lemma getUtahHolidayDates_year:
  assumes "(name, hday) \<in> set (getUtahHolidayDates y)"
  shows "getFullYear hday = fullYear y"
  using assms getUtahHolidayDates_windows[of y] unfolding getUtahHolidayDates_def
  by (simp, elim disjE) simp_all

lemma getUtahHolidayDates_not_dec25:
  assumes "(name, hday) \<in> set (getUtahHolidayDates y)"
  shows "\<not> (getMonth hday = 11 \<and> getDate hday = 25)"
  using assms getUtahHolidayDates_windows[of y] unfolding getUtahHolidayDates_def
  by (simp, elim disjE) simp_all

lemma filter_none:
  assumes "d \<notin> snd ` set xs"
  shows "filter (\<lambda>(n', hday). hday = d) xs = []"
  using assms by (force simp: filter_empty_conv)

lemma filter_unique:
  assumes "distinct (map snd xs)" "(n, d) \<in> set xs"
  shows "filter (\<lambda>(n', hday). hday = d) xs = [(n, d)]"
  using assms
proof (induction xs)
  case Nil
  then show ?case by simp
next
  case (Cons x xs)
  obtain n' d' where x: "x = (n', d')" by (cases x)
  show ?case
  proof (cases "d' = d")
    case True
    then have "d \<notin> snd ` set xs" using Cons.prems(1) x by simp
    then have none: "filter (\<lambda>(n', hday). hday = d) xs = []"
      by (rule filter_none)
    have "(n, d) \<notin> set xs" using \<open>d \<notin> snd ` set xs\<close> by force
    then have "n' = n" using Cons.prems(2) x True by simp
    then show ?thesis using True x none by simp
  next
    case False
    then have "(n, d) \<in> set xs" using Cons.prems(2) x by auto
    then show ?thesis using Cons.IH Cons.prems(1) False x by simp
  qed
qed

text \<open>
  On a day that went through \<open>startOfDay\<close>, the holidays found by the loop are the
  entries of that year's table whose date is the day itself.
\<close>

lemma getHolidayAssignmentsForDate_startOfDay:
  "getHolidayAssignmentsForDate cfg (startOfDay date) =
     map (\<lambda>(name, hday). \<lparr>ha_name = name, ha_date = hday,
                          ha_parent = holidayParent cfg name (getFullYear (startOfDay date))\<rparr>)
       (filter (\<lambda>(name, hday). hday = startOfDay date)
          (getUtahHolidayDates (getFullYear (startOfDay date))))"
proof -
  let ?d = "startOfDay date"
  let ?y = "getFullYear ?d"
  have y: "fullYear ?y = ?y" by (simp add: getFullYear_startOfDay fullYear_idem)
  have out: "\<not> (0 \<le> ?y \<and> ?y \<le> 99)" using fullYear_outside[of "getFullYear date"]
    by (simp add: getFullYear_startOfDay)
  have "filter (\<lambda>(name, hday). diffDays ?d hday = 0) (getUtahHolidayDates ?y) =
      filter (\<lambda>(name, hday). hday = ?d) (getUtahHolidayDates ?y)"
  proof (rule filter_cong[OF refl])
    fix x assume x: "x \<in> set (getUtahHolidayDates ?y)"
    obtain name hday where p: "x = (name, hday)" by (cases x)
    have "getFullYear hday = ?y" using getUtahHolidayDates_year[of name hday ?y] x p y by simp
    then have "diffDays ?d hday = ?d - hday" using out by (intro diffDays_startOfDay) simp
    then show "(case x of (name, hday) \<Rightarrow> diffDays ?d hday = 0) = (case x of (name, hday) \<Rightarrow> hday = ?d)"
      using p by auto
  qed
  then show ?thesis
    by (simp add: getHolidayAssignmentsForDate_def Let_def holidayLoop_filter)
qed

lemma getCustodyStatus_holiday:
  assumes "(name, startOfDay date) \<in> set (getUtahHolidayDates (getFullYear (startOfDay date)))"
  shows "getCustodyStatus h cfg date =
    Inr (holidayParent cfg name (getFullYear (startOfDay date)))"
  using filter_unique[OF getUtahHolidayDates_distinct assms]
  by (simp add: getCustodyStatus_def Let_def getHolidayAssignmentsForDate_startOfDay)

lemma getCustodyStatus_no_holiday:
  assumes "startOfDay date \<notin> snd ` set (getUtahHolidayDates (getFullYear (startOfDay date)))"
  shows "getHolidayAssignmentsForDate cfg (startOfDay date) = []"
    "getCustodyStatus h cfg date = weeklyStatus h cfg (startOfDay date)"
  using filter_none[OF assms]
  by (simp_all add: getCustodyStatus_def Let_def getHolidayAssignmentsForDate_startOfDay)

lemma getCustodyStatus_cases:
  "(\<exists>name. (name, startOfDay date) \<in> set (getUtahHolidayDates (getFullYear (startOfDay date))) \<and>
      getCustodyStatus h cfg date = Inr (holidayParent cfg name (getFullYear (startOfDay date)))) \<or>
   getCustodyStatus h cfg date = weeklyStatus h cfg (startOfDay date)"
proof (cases "startOfDay date \<in> snd ` set (getUtahHolidayDates (getFullYear (startOfDay date)))")
  case True
  then obtain name where
    "(name, startOfDay date) \<in> set (getUtahHolidayDates (getFullYear (startOfDay date)))"
    by force
  then show ?thesis using getCustodyStatus_holiday by blast
next
  case False
  then show ?thesis using getCustodyStatus_no_holiday(2) by blast
qed

subsection \<open>The weekly rules\<close>

lemma weeklyStatus_valid:
  assumes "dayIndex (aw_pickupDay (alternatingWeekends cfg)) = Inr p"
    and "dayIndex (aw_dropoffDay (alternatingWeekends cfg)) = Inr q"
    and "dayIndex (wo_pickupDay (weekdayOvernight cfg)) = Inr op"
    and "dayIndex (wo_dropoffDay (weekdayOvernight cfg)) = Inr od"
  shows "weeklyStatus h cfg d =
    Inr (if isDayInRange (getDay d) p q then (if isUserWeekend h cfg d then User else Coparent)
         else if getDay d = op \<or> getDay d = od then wo_parent (weekdayOvernight cfg)
         else (if wo_parent (weekdayOvernight cfg) = User then Coparent else User))"
  by (simp add: weeklyStatus_def Let_def assms)

lemma validConfig_indices:
  assumes "validConfig cfg"
  obtains p q op od where
    "dayIndex (aw_pickupDay (alternatingWeekends cfg)) = Inr p"
    "dayIndex (aw_dropoffDay (alternatingWeekends cfg)) = Inr q"
    "dayIndex (wo_pickupDay (weekdayOvernight cfg)) = Inr op"
    "dayIndex (wo_dropoffDay (weekdayOvernight cfg)) = Inr od"
proof -
  have r: "\<not> isl x \<Longrightarrow> \<exists>i. x = Inr i" for x :: "error + int" by (cases x) simp_all
  from assms r show ?thesis unfolding validConfig_def using that by metis
qed

lemma validConfig_status:
  assumes "validConfig cfg"
  shows "\<exists>s. getCustodyStatus h cfg date = Inr s"
proof -
  obtain p q op od where i:
    "dayIndex (aw_pickupDay (alternatingWeekends cfg)) = Inr p"
    "dayIndex (aw_dropoffDay (alternatingWeekends cfg)) = Inr q"
    "dayIndex (wo_pickupDay (weekdayOvernight cfg)) = Inr op"
    "dayIndex (wo_dropoffDay (weekdayOvernight cfg)) = Inr od"
    using validConfig_indices[OF assms] by blast
  show ?thesis
    using getCustodyStatus_cases[of date h cfg] weeklyStatus_valid[OF i, of h "startOfDay date"]
    by auto
qed

subsection \<open>Custody status\<close>

lemma example_indices:
  "dayIndex (aw_pickupDay (alternatingWeekends exampleConfig)) = Inr 5"
  "dayIndex (aw_dropoffDay (alternatingWeekends exampleConfig)) = Inr 0"
  "dayIndex (wo_pickupDay (weekdayOvernight exampleConfig)) = Inr 3"
  "dayIndex (wo_dropoffDay (weekdayOvernight exampleConfig)) = Inr 4"
  by (simp_all add: exampleConfig_def dayIndex_names)




lemma christmas_days:
  "getMonth (newDate y 11 24) = 11" "getDate (newDate y 11 24) = 24"
  "getMonth (newDate y 11 26) = 11" "getDate (newDate y 11 26) = 26"
  "getFullYear (newDate y 11 25) = fullYear y"
  "getMonth (newDate y 11 25) = 11" "getDate (newDate y 11 25) = 25"
  by (simp_all add: newDate_fields)

lemma december_25_2024:
  "getMonth (newDate 2024 11 25) = 11" "getDate (newDate 2024 11 25) = 25"
  "getDay (newDate 2024 11 25) = 3"
  "startOfDay (newDate 2024 11 25) = newDate 2024 11 25"
  by code_simp+

text \<open>
  C10: in every year the holiday table has "Christmas 1st half" on December 24 and
  "Christmas 2nd half" on December 26, and no entry on December 25.  So for a date on
  December 25 the holiday list is empty under every configuration, and
  \<open>getCustodyStatus\<close> is what the weekend-range, weekday-overnight and default rules give.
\<close>

theorem C10_no_holiday_on_december_25:
  "(''Christmas 1st half'', newDate y 11 24) \<in> set (getUtahHolidayDates y) \<and>
   getMonth (newDate y 11 24) = 11 \<and> getDate (newDate y 11 24) = 24 \<and>
   (''Christmas 2nd half'', newDate y 11 26) \<in> set (getUtahHolidayDates y) \<and>
   getMonth (newDate y 11 26) = 11 \<and> getDate (newDate y 11 26) = 26 \<and>
   (\<forall>name d. (name, d) \<in> set (getUtahHolidayDates y) \<longrightarrow> \<not> (getMonth d = 11 \<and> getDate d = 25)) \<and>
   (getMonth date = 11 \<and> getDate date = 25 \<longrightarrow>
      getMonth (startOfDay date) = 11 \<and> getDate (startOfDay date) = 25 \<and>
      getHolidayAssignmentsForDate cfg (startOfDay date) = [] \<and>
      getCustodyStatus h cfg date = weeklyStatus h cfg (startOfDay date))"
proof -
  have tab: "(''Christmas 1st half'', newDate y 11 24) \<in> set (getUtahHolidayDates y)"
    "(''Christmas 2nd half'', newDate y 11 26) \<in> set (getUtahHolidayDates y)"
    by (simp_all add: getUtahHolidayDates_def)
  have none: "\<forall>name d. (name, d) \<in> set (getUtahHolidayDates y) \<longrightarrow>
      \<not> (getMonth d = 11 \<and> getDate d = 25)"
    using getUtahHolidayDates_not_dec25 by blast
  have dec: "getMonth date = 11 \<and> getDate date = 25 \<longrightarrow>
      getMonth (startOfDay date) = 11 \<and> getDate (startOfDay date) = 25 \<and>
      getHolidayAssignmentsForDate cfg (startOfDay date) = [] \<and>
      getCustodyStatus h cfg date = weeklyStatus h cfg (startOfDay date)"
  proof
    assume a: "getMonth date = 11 \<and> getDate date = 25"
    then have s: "startOfDay date = newDate (getFullYear date) 11 25"
      by (simp add: startOfDay_def)
    have md: "getMonth (startOfDay date) = 11" "getDate (startOfDay date) = 25"
      by (simp_all add: s christmas_days)
    have "startOfDay date \<notin> snd ` set (getUtahHolidayDates (getFullYear (startOfDay date)))"
    proof
      assume "startOfDay date \<in> snd ` set (getUtahHolidayDates (getFullYear (startOfDay date)))"
      then obtain name where
        "(name, startOfDay date) \<in> set (getUtahHolidayDates (getFullYear (startOfDay date)))"
        by force
      then show False using getUtahHolidayDates_not_dec25 md by blast
    qed
    then show "getMonth (startOfDay date) = 11 \<and> getDate (startOfDay date) = 25 \<and>
      getHolidayAssignmentsForDate cfg (startOfDay date) = [] \<and>
      getCustodyStatus h cfg date = weeklyStatus h cfg (startOfDay date)"
      using md getCustodyStatus_no_holiday(1)[of date cfg]
        getCustodyStatus_no_holiday(2)[of date h cfg] by simp
  qed
  show ?thesis using tab none dec christmas_days(1-4) by (intro conjI) assumption+
qed

theorem C10_december_25_witness:
  "getMonth (newDate 2024 11 25) = 11 \<and> getDate (newDate 2024 11 25) = 25 \<and>
   getHolidayAssignmentsForDate exampleConfig (startOfDay (newDate 2024 11 25)) = [] \<and>
   getCustodyStatus denver exampleConfig (newDate 2024 11 25) =
     weeklyStatus denver exampleConfig (newDate 2024 11 25) \<and>
   getCustodyStatus denver exampleConfig (newDate 2024 11 25) = Inr User"
proof -
  have w: "weeklyStatus denver exampleConfig (newDate 2024 11 25) = Inr User"
    using weeklyStatus_valid[OF example_indices, of denver "newDate 2024 11 25"]
    by (simp add: december_25_2024 isDayInRange_def exampleConfig_def)
  show ?thesis
    using C10_no_holiday_on_december_25[of 2024 "newDate 2024 11 25" exampleConfig denver] w
    by (simp add: december_25_2024)
qed

subsection \<open>Invalid weekday names\<close>

lemma typo_day_2024:
  "getHolidayAssignmentsForDate typoConfig (startOfDay (newDate 2024 0 5)) = []"
  by code_simp

text \<open>
  C8 as stated has an unrecognised weekday name rejected when the configuration is
  loaded.  \<open>loadConfig\<close> checks only that the file exists: it returns the configuration
  with the misspelt pickup day, and the custody query on Friday 2024-01-05 is what fails,
  with the invalid-day error.
\<close>

theorem C8_load_accepts_invalid_weekday:
  "dayIndex (aw_pickupDay (alternatingWeekends typoConfig)) = Inl (InvalidDayName ''Fryday'') \<and>
   loadConfig \<lparr>config = None, schedule_json = Some typoConfig\<rparr> =
     (Inr typoConfig, \<lparr>config = Some typoConfig, schedule_json = Some typoConfig\<rparr>) \<and>
   custodyQuery \<lparr>config = None, schedule_json = Some typoConfig\<rparr> denver (newDate 2024 0 5) =
     (Inl (InvalidDayName ''Fryday''), \<lparr>config = Some typoConfig, schedule_json = Some typoConfig\<rparr>)"
proof -
  have d: "dayIndex (aw_pickupDay (alternatingWeekends typoConfig)) = Inl (InvalidDayName ''Fryday'')"
    by (simp add: typoConfig_def dayIndex_names)
  have l: "loadConfig \<lparr>config = None, schedule_json = Some typoConfig\<rparr> =
     (Inr typoConfig, \<lparr>config = Some typoConfig, schedule_json = Some typoConfig\<rparr>)"
    by (simp add: loadConfig_def)
  have g: "getCustodyStatus denver typoConfig (newDate 2024 0 5) = Inl (InvalidDayName ''Fryday'')"
    by (simp add: getCustodyStatus_def Let_def typo_day_2024 weeklyStatus_def d)
  show ?thesis using d l g by (simp add: custodyQuery_def)
qed

text \<open>
  C8 (amended): loading never looks at the weekday names: with an empty cache
  \<open>loadConfig\<close> returns whatever configuration the file holds, and it fails only when
  the file is missing.  An unrecognised weekday name is reported by the custody query:
  a query fails only with the invalid-day error of one of the four configured names, on a
  day without a holiday; on such a day an unrecognised weekend pickup name always fails
  the query, and on a day with a holiday the query succeeds whatever the names are.
\<close>

theorem C8_invalid_weekday_fails_at_query:
  "loadConfig \<lparr>config = None, schedule_json = Some cfg\<rparr> =
     (Inr cfg, \<lparr>config = Some cfg, schedule_json = Some cfg\<rparr>) \<and>
   loadConfig \<lparr>config = None, schedule_json = None\<rparr> =
     (Inl ConfigNotFound, \<lparr>config = None, schedule_json = None\<rparr>) \<and>
   (getCustodyStatus h cfg date = Inl e \<longrightarrow>
      getHolidayAssignmentsForDate cfg (startOfDay date) = [] \<and>
      (\<exists>name. e = InvalidDayName name \<and> dayIndex name = Inl e \<and>
         name \<in> {aw_pickupDay (alternatingWeekends cfg), aw_dropoffDay (alternatingWeekends cfg),
                 wo_pickupDay (weekdayOvernight cfg), wo_dropoffDay (weekdayOvernight cfg)})) \<and>
   (getHolidayAssignmentsForDate cfg (startOfDay date) = [] \<and>
    dayIndex (aw_pickupDay (alternatingWeekends cfg)) = Inl e \<longrightarrow>
      getCustodyStatus h cfg date = Inl e) \<and>
   (getHolidayAssignmentsForDate cfg (startOfDay date) \<noteq> [] \<longrightarrow>
      (\<exists>s. getCustodyStatus h cfg date = Inr s))"
proof -
  have l: "loadConfig \<lparr>config = None, schedule_json = Some cfg\<rparr> =
     (Inr cfg, \<lparr>config = Some cfg, schedule_json = Some cfg\<rparr>)"
    "loadConfig \<lparr>config = None, schedule_json = None\<rparr> =
     (Inl ConfigNotFound, \<lparr>config = None, schedule_json = None\<rparr>)"
    by (simp_all add: loadConfig_def)
  have werr: "weeklyStatus h cfg d = Inl e \<Longrightarrow>
      \<exists>name. e = InvalidDayName name \<and> dayIndex name = Inl e \<and>
         name \<in> {aw_pickupDay (alternatingWeekends cfg), aw_dropoffDay (alternatingWeekends cfg),
                 wo_pickupDay (weekdayOvernight cfg), wo_dropoffDay (weekdayOvernight cfg)}" for d
    unfolding weeklyStatus_def Let_def
    by (auto split: sum.splits if_splits dest: dayIndex_error)
  have a: "getCustodyStatus h cfg date = Inl e \<longrightarrow>
      getHolidayAssignmentsForDate cfg (startOfDay date) = [] \<and>
      (\<exists>name. e = InvalidDayName name \<and> dayIndex name = Inl e \<and>
         name \<in> {aw_pickupDay (alternatingWeekends cfg), aw_dropoffDay (alternatingWeekends cfg),
                 wo_pickupDay (weekdayOvernight cfg), wo_dropoffDay (weekdayOvernight cfg)})"
  proof
    assume g: "getCustodyStatus h cfg date = Inl e"
    then have n: "getHolidayAssignmentsForDate cfg (startOfDay date) = []"
      by (simp add: getCustodyStatus_def Let_def split: list.splits)
    then have "weeklyStatus h cfg (startOfDay date) = Inl e"
      using g by (simp add: getCustodyStatus_def Let_def)
    then show "getHolidayAssignmentsForDate cfg (startOfDay date) = [] \<and>
      (\<exists>name. e = InvalidDayName name \<and> dayIndex name = Inl e \<and>
         name \<in> {aw_pickupDay (alternatingWeekends cfg), aw_dropoffDay (alternatingWeekends cfg),
                 wo_pickupDay (weekdayOvernight cfg), wo_dropoffDay (weekdayOvernight cfg)})"
      using n werr by blast
  qed
  have b: "getHolidayAssignmentsForDate cfg (startOfDay date) = [] \<and>
    dayIndex (aw_pickupDay (alternatingWeekends cfg)) = Inl e \<longrightarrow>
      getCustodyStatus h cfg date = Inl e"
    by (simp add: getCustodyStatus_def Let_def weeklyStatus_def)
  have c: "getHolidayAssignmentsForDate cfg (startOfDay date) \<noteq> [] \<longrightarrow>
      (\<exists>s. getCustodyStatus h cfg date = Inr s)"
    by (simp add: getCustodyStatus_def Let_def split: list.splits)
  show ?thesis by (rule conjI[OF l(1) conjI[OF l(2) conjI[OF a conjI[OF b c]]]])
qed

theorem C8_invalid_weekday_witness:
  "getHolidayAssignmentsForDate typoConfig (startOfDay (newDate 2024 0 5)) = [] \<and>
   dayIndex (aw_pickupDay (alternatingWeekends typoConfig)) = Inl (InvalidDayName ''Fryday'') \<and>
   getCustodyStatus denver typoConfig (newDate 2024 0 5) = Inl (InvalidDayName ''Fryday'') \<and>
   loadConfig \<lparr>config = None, schedule_json = Some typoConfig\<rparr> =
     (Inr typoConfig, \<lparr>config = Some typoConfig, schedule_json = Some typoConfig\<rparr>)"
proof -
  have d: "dayIndex (aw_pickupDay (alternatingWeekends typoConfig)) = Inl (InvalidDayName ''Fryday'')"
    by (simp add: typoConfig_def dayIndex_names)
  show ?thesis
    using C8_invalid_weekday_fails_at_query[of typoConfig denver "newDate 2024 0 5"
        "InvalidDayName ''Fryday''"] d typo_day_2024
    by simp
qed

subsection \<open>Alternating weekends\<close>

lemma isUserWeekend_even:
  "isUserWeekend h cfg date \<longleftrightarrow>
     even ((startOfDay date
            - startOfDay (newDateFromString h (aw_referenceDate (alternatingWeekends cfg)))) div 7)"
  by (simp add: isUserWeekend_def Let_def diffDays_def startOfDay_idem jsRem_2_even)

text \<open>
  C2: the week number is the floor of the day difference over seven and the user has the
  even weeks, also before the reference date; but the reference date is read with
  \<open>new Date(string)\<close>, which takes the date-only string as midnight UTC.  On a host west
  of Greenwich that instant lies on the evening before: in Utah the reference
  2024-01-05 becomes Thursday 2024-01-04.  For Thursday 2024-01-11 the claimed
  computation gives 6 days, week 0, the user; the code gives 7 days, week 1, the
  coparent.  On a host on UTC the code agrees with the claim.  The three weekends named
  in the claim come out as claimed on both hosts.
\<close>

theorem C2_reference_date_shifted_west_of_utc:
  "aw_referenceDate (alternatingWeekends exampleConfig) = ISO 2024 1 5 \<and>
   parseLocalDate (ISO 2024 1 5) = newDate 2024 0 5 \<and>
   newDateFromString denver (ISO 2024 1 5) = newDate 2024 0 4 \<and>
   newDateFromString utc (ISO 2024 1 5) = newDate 2024 0 5 \<and>
   diffDays (newDate 2024 0 11) (newDate 2024 0 5) = 6 \<and> even ((6::int) div 7) \<and>
   isUserWeekend denver exampleConfig (newDate 2024 0 11) = False \<and>
   isUserWeekend utc exampleConfig (newDate 2024 0 11) = True \<and>
   isUserWeekend denver exampleConfig (newDate 2024 0 5) = True \<and>
   isUserWeekend denver exampleConfig (newDate 2024 0 12) = False \<and>
   isUserWeekend denver exampleConfig (newDate 2023 11 29) = False \<and>
   isUserWeekend utc exampleConfig (newDate 2024 0 5) = True \<and>
   isUserWeekend utc exampleConfig (newDate 2024 0 12) = False \<and>
   isUserWeekend utc exampleConfig (newDate 2023 11 29) = False"
  by code_simp

subsection \<open>Next transition\<close>

lemma status_function:
  assumes "validConfig cfg"
  obtains st where "\<And>d. getCustodyStatus h cfg d = Inr (st d)"
proof -
  have "\<forall>d. \<exists>s. getCustodyStatus h cfg d = Inr s"
    using validConfig_status[OF assms] by blast
  then obtain st where "\<forall>d. getCustodyStatus h cfg d = Inr (st d)" by metis
  then show ?thesis using that by blast
qed

lemma nextTransitionLoop_none:
  assumes st: "\<And>d. getCustodyStatus h cfg d = Inr (st d)"
  shows "(\<forall>j. i \<le> j \<and> j \<le> 14 \<longrightarrow> st (date + j) = c) \<Longrightarrow>
    nextTransitionLoop h cfg date c i = Inr None"
proof (induction "nat (15 - i)" arbitrary: i)
  case 0
  then have "\<not> i \<le> 14" by simp
  then show ?case by (subst nextTransitionLoop.simps) simp
next
  case (Suc n)
  have i: "i \<le> 14" using Suc.hyps(2) by simp
  have n: "n = nat (15 - (i + 1))" using Suc.hyps(2) by simp
  have here: "st (date + i) = c" using Suc.prems i by simp
  have rest: "\<forall>j. i + 1 \<le> j \<and> j \<le> 14 \<longrightarrow> st (date + j) = c"
    using Suc.prems by simp
  have "nextTransitionLoop h cfg date c (i + 1) = Inr None"
    by (rule Suc.hyps(1)[OF n rest])
  then show ?case
    using i here by (subst nextTransitionLoop.simps) (simp add: Let_def st addDays_eq)
qed

lemma nextTransitionLoop_found:
  assumes st: "\<And>d. getCustodyStatus h cfg d = Inr (st d)"
    and k: "k \<le> 14" "st (date + k) \<noteq> c"
  shows "i \<le> k \<Longrightarrow> (\<forall>j. i \<le> j \<and> j < k \<longrightarrow> st (date + j) = c) \<Longrightarrow>
    nextTransitionLoop h cfg date c i =
      Inr (Some \<lparr>ct_date = date + k,
                 ct_description = transitionDescription h (st (date + k)) (date + k)\<rparr>)"
proof (induction "nat (k - i)" arbitrary: i)
  case 0
  then have "i = k" by simp
  then show ?case
    using k by (subst nextTransitionLoop.simps) (simp add: Let_def st addDays_eq)
next
  case (Suc n)
  have lt: "i < k" using Suc.hyps(2) by simp
  then have i: "i \<le> 14" using k(1) by simp
  have n: "n = nat (k - (i + 1))" using Suc.hyps(2) by simp
  have here: "st (date + i) = c" using Suc.prems(2) lt by simp
  have rest: "\<forall>j. i + 1 \<le> j \<and> j < k \<longrightarrow> st (date + j) = c"
    using Suc.prems(2) by simp
  have le: "i + 1 \<le> k" using lt by simp
  have "nextTransitionLoop h cfg date c (i + 1) =
      Inr (Some \<lparr>ct_date = date + k,
                 ct_description = transitionDescription h (st (date + k)) (date + k)\<rparr>)"
    by (rule Suc.hyps(1)[OF n le rest])
  then show ?case
    using i here by (subst nextTransitionLoop.simps) (simp add: Let_def st addDays_eq)
qed

lemma least_in_range:
  fixes P :: "int \<Rightarrow> bool"
  assumes "\<exists>i. a \<le> i \<and> i \<le> b \<and> P i"
  obtains k where "a \<le> k" "k \<le> b" "P k" "\<forall>j. a \<le> j \<and> j < k \<longrightarrow> \<not> P j"
proof -
  let ?S = "{i. a \<le> i \<and> i \<le> b \<and> P i}"
  have fin: "finite ?S" by (rule finite_subset[of _ "{a..b}"]) auto
  have ne: "?S \<noteq> {}" using assms by blast
  have m: "Min ?S \<in> ?S" by (rule Min_in[OF fin ne])
  have le: "\<forall>j. a \<le> j \<and> j < Min ?S \<longrightarrow> \<not> P j"
  proof (intro allI impI notI)
    fix j assume j: "a \<le> j \<and> j < Min ?S" and p: "P j"
    have "Min ?S \<le> b" using m by blast
    then have "j \<le> b" using j by linarith
    then have "j \<in> ?S" using j p by simp
    then have "Min ?S \<le> j" by (rule Min_le[OF fin])
    then show False using j by simp
  qed
  have m': "a \<le> Min ?S" "Min ?S \<le> b" "P (Min ?S)" using m by blast+
  show ?thesis by (rule that[OF m' le])
qed

lemma next_pickup_day:
  fixes date :: int
  assumes p: "0 \<le> p" "p \<le> 6"
  defines "r \<equiv> jsRem (p - getDay date + 7) 7"
  defines "k \<equiv> (if r = 0 then 7 else r)"
  shows "1 \<le> k" "k \<le> 7" "getDay (date + k) = p"
    "\<forall>j. 1 \<le> j \<and> j < k \<longrightarrow> getDay (date + j) \<noteq> p"
proof -
  have r: "r = (p - getDay date) mod 7" unfolding r_def by (rule weekday_offset[OF p])
  then have rr: "0 \<le> r" "r \<le> 6" by simp_all
  show k1: "1 \<le> k" and k7: "k \<le> 7" using rr by (simp_all add: k_def)
  have "getDay (date + r) = p" unfolding r by (rule getDay_forward[OF p])
  moreover have "getDay (date + 7) = getDay date"
    using getDay_add[of date 7] getDay_range[of date] by simp
  ultimately show gk: "getDay (date + k) = p" by (cases "r = 0") (simp_all add: k_def)
  show "\<forall>j. 1 \<le> j \<and> j < k \<longrightarrow> getDay (date + j) \<noteq> p"
  proof (intro allI impI notI)
    fix j assume j: "1 \<le> j \<and> j < k" and "getDay (date + j) = p"
    then have "getDay (date + j) = getDay (date + k)" using gk by simp
    then have "date + j = date + k"
      by (rule no_weekday_between) (use j k7 in simp_all)
    then show False using j by simp
  qed
qed

text \<open>
  C6: for a valid configuration every day has a status, and \<open>getNextTransition\<close> returns
  a transition whose date is strictly after the given date.  If the status of one of the
  next 14 days differs from today's, the date is the first such day \<open>date + k\<close>, the
  description names who gets the children ("Children come to you" for the user,
  "Children go to" the co-parent's name otherwise) with that date, and the status on the
  returned date differs from today's.  If none of the 14 days differs, the date is the
  next day after today whose weekday is the alternating-weekend pickup weekday (1 to 7
  days ahead), described as "Next weekend".
\<close>

theorem C6_getNextTransition:
  assumes "validConfig cfg"
  shows "\<exists>t st.
    (\<forall>i. getCustodyStatus h cfg (date + i) = Inr (st i)) \<and>
    getNextTransition h cfg date = Inr t \<and> date < ct_date t \<and>
    ((\<exists>i. 1 \<le> i \<and> i \<le> 14 \<and> st i \<noteq> st 0) \<longrightarrow>
       (\<exists>k. 1 \<le> k \<and> k \<le> 14 \<and> ct_date t = date + k \<and> st k \<noteq> st 0 \<and>
          (\<forall>j. 1 \<le> j \<and> j < k \<longrightarrow> st j = st 0) \<and>
          ct_description t =
            (if st k = User then ''Children come to you ('' @ formatDate (date + k) @ '')''
             else ''Children go to '' @ orDefault (COPARENT_NAME h) ''co-parent''
                  @ '' ('' @ formatDate (date + k) @ '')'')) \<and>
       getCustodyStatus h cfg (ct_date t) \<noteq> getCustodyStatus h cfg date) \<and>
    ((\<forall>i. 1 \<le> i \<and> i \<le> 14 \<longrightarrow> st i = st 0) \<longrightarrow>
       (\<exists>p k. dayIndex (aw_pickupDay (alternatingWeekends cfg)) = Inr p \<and>
          1 \<le> k \<and> k \<le> 7 \<and> ct_date t = date + k \<and> getDay (date + k) = p \<and>
          (\<forall>j. 1 \<le> j \<and> j < k \<longrightarrow> getDay (date + j) \<noteq> p) \<and>
          ct_description t = ''Next weekend: '' @ formatDate (date + k)))"
proof -
  obtain f where f: "\<And>d. getCustodyStatus h cfg d = Inr (f d)"
    using status_function[OF assms] by blast
  define st where "st i = f (date + i)" for i
  have st: "\<forall>i. getCustodyStatus h cfg (date + i) = Inr (st i)" by (simp add: f st_def)
  have cur: "getCustodyStatus h cfg date = Inr (st 0)" by (simp add: f st_def)
  obtain p where p: "dayIndex (aw_pickupDay (alternatingWeekends cfg)) = Inr p"
    using validConfig_indices[OF assms] by blast
  show ?thesis
  proof (cases "\<exists>i. 1 \<le> i \<and> i \<le> 14 \<and> st i \<noteq> st 0")
    case True
    then obtain k where k: "1 \<le> k" "k \<le> 14" "st k \<noteq> st 0"
      and least: "\<forall>j. 1 \<le> j \<and> j < k \<longrightarrow> \<not> st j \<noteq> st 0"
      using least_in_range[of 1 14 "\<lambda>i. st i \<noteq> st 0"] by blast
    define t where "t = \<lparr>ct_date = date + k,
        ct_description = transitionDescription h (st k) (date + k)\<rparr>"
    have "nextTransitionLoop h cfg date (st 0) 1 = Inr (Some t)"
      unfolding t_def st_def
      by (rule nextTransitionLoop_found[OF f]) (use k least in \<open>simp_all add: st_def\<close>)
    then have g: "getNextTransition h cfg date = Inr t"
      by (simp add: getNextTransition_def cur)
    have d: "ct_date t = date + k" "ct_description t =
            (if st k = User then ''Children come to you ('' @ formatDate (date + k) @ '')''
             else ''Children go to '' @ orDefault (COPARENT_NAME h) ''co-parent''
                  @ '' ('' @ formatDate (date + k) @ '')'')"
      by (simp_all add: t_def transitionDescription_def)
    have ne: "getCustodyStatus h cfg (ct_date t) \<noteq> getCustodyStatus h cfg date"
      using k(3) st by (simp add: d(1) cur)
    have lt: "date < ct_date t" using k(1) by (simp add: d(1))
    have first: "\<forall>j. 1 \<le> j \<and> j < k \<longrightarrow> st j = st 0" using least by simp
    have A: "(\<exists>i. 1 \<le> i \<and> i \<le> 14 \<and> st i \<noteq> st 0) \<longrightarrow>
       (\<exists>k. 1 \<le> k \<and> k \<le> 14 \<and> ct_date t = date + k \<and> st k \<noteq> st 0 \<and>
          (\<forall>j. 1 \<le> j \<and> j < k \<longrightarrow> st j = st 0) \<and>
          ct_description t =
            (if st k = User then ''Children come to you ('' @ formatDate (date + k) @ '')''
             else ''Children go to '' @ orDefault (COPARENT_NAME h) ''co-parent''
                  @ '' ('' @ formatDate (date + k) @ '')'')) \<and>
       getCustodyStatus h cfg (ct_date t) \<noteq> getCustodyStatus h cfg date"
      by (intro impI conjI exI[of _ k] k d ne first)
    have B: "(\<forall>i. 1 \<le> i \<and> i \<le> 14 \<longrightarrow> st i = st 0) \<longrightarrow>
       (\<exists>p k. dayIndex (aw_pickupDay (alternatingWeekends cfg)) = Inr p \<and>
          1 \<le> k \<and> k \<le> 7 \<and> ct_date t = date + k \<and> getDay (date + k) = p \<and>
          (\<forall>j. 1 \<le> j \<and> j < k \<longrightarrow> getDay (date + j) \<noteq> p) \<and>
          ct_description t = ''Next weekend: '' @ formatDate (date + k))"
      using True by blast
    show ?thesis
      by (intro exI[of _ t] exI[of _ st] conjI st g lt A B)
  next
    case False
    then have same: "\<forall>i. 1 \<le> i \<and> i \<le> 14 \<longrightarrow> st i = st 0" by blast
    define r where "r = jsRem (p - getDay date + 7) 7"
    define k where "k = (if r = 0 then 7 else r)"
    define t where "t = \<lparr>ct_date = date + k,
        ct_description = ''Next weekend: '' @ formatDate (date + k)\<rparr>"
    have "nextTransitionLoop h cfg date (st 0) 1 = Inr None"
      by (rule nextTransitionLoop_none[OF f]) (use same in \<open>simp add: st_def\<close>)
    then have g: "getNextTransition h cfg date = Inr t"
      by (simp add: getNextTransition_def cur p Let_def t_def k_def r_def addDays_eq)
    have np: "1 \<le> k" "k \<le> 7" "getDay (date + k) = p"
      "\<forall>j. 1 \<le> j \<and> j < k \<longrightarrow> getDay (date + j) \<noteq> p"
      unfolding k_def r_def by (rule next_pickup_day[OF dayIndex_range[OF p]])+
    have d: "ct_date t = date + k" "ct_description t = ''Next weekend: '' @ formatDate (date + k)"
      by (simp_all add: t_def)
    have lt: "date < ct_date t" using np(1) by (simp add: d(1))
    have A: "(\<exists>i. 1 \<le> i \<and> i \<le> 14 \<and> st i \<noteq> st 0) \<longrightarrow>
       (\<exists>k. 1 \<le> k \<and> k \<le> 14 \<and> ct_date t = date + k \<and> st k \<noteq> st 0 \<and>
          (\<forall>j. 1 \<le> j \<and> j < k \<longrightarrow> st j = st 0) \<and>
          ct_description t =
            (if st k = User then ''Children come to you ('' @ formatDate (date + k) @ '')''
             else ''Children go to '' @ orDefault (COPARENT_NAME h) ''co-parent''
                  @ '' ('' @ formatDate (date + k) @ '')'')) \<and>
       getCustodyStatus h cfg (ct_date t) \<noteq> getCustodyStatus h cfg date"
      using False by blast
    have B: "(\<forall>i. 1 \<le> i \<and> i \<le> 14 \<longrightarrow> st i = st 0) \<longrightarrow>
       (\<exists>p k. dayIndex (aw_pickupDay (alternatingWeekends cfg)) = Inr p \<and>
          1 \<le> k \<and> k \<le> 7 \<and> ct_date t = date + k \<and> getDay (date + k) = p \<and>
          (\<forall>j. 1 \<le> j \<and> j < k \<longrightarrow> getDay (date + j) \<noteq> p) \<and>
          ct_description t = ''Next weekend: '' @ formatDate (date + k))"
      by (intro impI conjI exI[of _ p] exI[of _ k] p np d)
    show ?thesis
      by (intro exI[of _ t] exI[of _ st] conjI st g lt A B)
  qed
qed

subsection \<open>Next transition: two concrete fortnights\<close>

lemma valid_examples: "validConfig exampleConfig" "validConfig mondayConfig"
  by (simp_all add: validConfig_def exampleConfig_def mondayConfig_def dayIndex_names)

lemma january_2024:
  "newDate 2024 0 5 = 19727" "newDate 2024 0 8 = 19730"
  "newDate 2024 0 9 = 19731" "newDate 2024 0 15 = 19737"
  "formatDate 19730 = ''Mon, Jan 8''" "formatDate 19737 = ''Mon, Jan 15''"
  "getDay 19737 = 1"
  by code_simp+

lemma example_transition_2024:
  "getCustodyStatus denver exampleConfig 19727 = Inr User"
  "getCustodyStatus denver exampleConfig 19728 = Inr User"
  "getCustodyStatus denver exampleConfig 19729 = Inr User"
  "getCustodyStatus denver exampleConfig 19730 = Inr Coparent"
  by code_simp+

lemma holidays_2024:
  "map snd (getUtahHolidayDates 2024) =
     [19723, 19737, 19772, 19800, 19870, 19890, 19855, 19908, 19928, 19968,
      20013, 20055, 20081, 20083]"
  "(''MLK Day'', 19737) \<in> set (getUtahHolidayDates 2024)"
  "isUserWeekend denver mondayConfig 19744 = True"
  by code_simp+

lemma monday_fortnight_2024:
  assumes i: "0 \<le> i" "i \<le> 14"
  shows "getCustodyStatus denver mondayConfig (19731 + i) = Inr User"
proof -
  let ?d = "19731 + i"
  have y: "getFullYear ?d = 2024"
    unfolding getFullYear_def by (rule YearFromDay_unique) (use i in \<open>simp_all add: DayFromYear_def\<close>)
  have s: "startOfDay ?d = ?d" by (rule startOfDay_id) (simp add: y)
  show ?thesis
  proof (cases "i = 6")
    case True
    have "(''MLK Day'', startOfDay ?d) \<in> set (getUtahHolidayDates (getFullYear (startOfDay ?d)))"
      unfolding s unfolding y by (simp add: True holidays_2024(2))
    from getCustodyStatus_holiday[OF this] show ?thesis
      unfolding s unfolding y by (simp add: holidayParent_def mondayConfig_def)
  next
    case False
    have "?d \<notin> set (map snd (getUtahHolidayDates 2024))"
      unfolding holidays_2024(1) using i False by simp
    then have nh: "startOfDay ?d \<notin> snd ` set (getUtahHolidayDates (getFullYear (startOfDay ?d)))"
      unfolding s unfolding y by simp
    have idx: "dayIndex (aw_pickupDay (alternatingWeekends mondayConfig)) = Inr 1"
      "dayIndex (aw_dropoffDay (alternatingWeekends mondayConfig)) = Inr 1"
      "dayIndex (wo_pickupDay (weekdayOvernight mondayConfig)) = Inr 1"
      "dayIndex (wo_dropoffDay (weekdayOvernight mondayConfig)) = Inr 1"
      "wo_parent (weekdayOvernight mondayConfig) = Coparent"
      by (simp_all add: mondayConfig_def dayIndex_names)
    have w: "weeklyStatus denver mondayConfig ?d = Inr User"
    proof (cases "getDay ?d = 1")
      case True
      then have "(i + 2) mod 7 = 1" by (simp add: getDay_def mod_simps) presburger
      then have "i = 13" using i False by presburger
      then show ?thesis
        by (simp add: weeklyStatus_def Let_def idx isDayInRange_def holidays_2024(3) january_2024)
    next
      case False
      then show ?thesis by (simp add: weeklyStatus_def Let_def idx isDayInRange_def)
    qed
    show ?thesis using getCustodyStatus_no_holiday(2)[OF nh, of denver mondayConfig] w
      by (simp only: s)
  qed
qed

theorem C6_getNextTransition_witness:
  "validConfig exampleConfig \<and>
   getCustodyStatus denver exampleConfig (newDate 2024 0 5 + 3)
     \<noteq> getCustodyStatus denver exampleConfig (newDate 2024 0 5) \<and>
   (\<exists>t. getNextTransition denver exampleConfig (newDate 2024 0 5) = Inr t \<and>
        ct_date t = newDate 2024 0 8 \<and>
        ct_description t = ''Children go to co-parent (Mon, Jan 8)'' \<and>
        getCustodyStatus denver exampleConfig (ct_date t)
          \<noteq> getCustodyStatus denver exampleConfig (newDate 2024 0 5)) \<and>
   validConfig mondayConfig \<and>
   list_all (\<lambda>i. getCustodyStatus denver mondayConfig (newDate 2024 0 9 + i) =
                 getCustodyStatus denver mondayConfig (newDate 2024 0 9))
     [1, 2, 3, 4, 5, 6, 7, 8, 9, 10, 11, 12, 13, 14] \<and>
   (\<exists>t. getNextTransition denver mondayConfig (newDate 2024 0 9) = Inr t \<and>
        ct_date t = newDate 2024 0 15 \<and>
        ct_description t = ''Next weekend: Mon, Jan 15'')"
proof -
  let ?d = "19727 :: int"
  let ?e = "19731 :: int"
  have ne: "getCustodyStatus denver exampleConfig (?d + 3) \<noteq> getCustodyStatus denver exampleConfig ?d"
    by (simp add: example_transition_2024)
  have found: "\<exists>t. getNextTransition denver exampleConfig ?d = Inr t \<and> ct_date t = 19730 \<and>
      ct_description t = ''Children go to co-parent (Mon, Jan 8)'' \<and>
      getCustodyStatus denver exampleConfig (ct_date t) \<noteq> getCustodyStatus denver exampleConfig ?d"
  proof -
    obtain t st where
      st: "\<forall>i. getCustodyStatus denver exampleConfig (?d + i) = Inr (st i)"
      and g: "getNextTransition denver exampleConfig ?d = Inr t"
      and tr: "(\<exists>i. 1 \<le> i \<and> i \<le> 14 \<and> st i \<noteq> st 0) \<longrightarrow>
        (\<exists>k. 1 \<le> k \<and> k \<le> 14 \<and> ct_date t = ?d + k \<and> st k \<noteq> st 0 \<and>
          (\<forall>j. 1 \<le> j \<and> j < k \<longrightarrow> st j = st 0) \<and>
          ct_description t =
            (if st k = User then ''Children come to you ('' @ formatDate (?d + k) @ '')''
             else ''Children go to '' @ orDefault (COPARENT_NAME denver) ''co-parent''
                  @ '' ('' @ formatDate (?d + k) @ '')'')) \<and>
        getCustodyStatus denver exampleConfig (ct_date t) \<noteq> getCustodyStatus denver exampleConfig ?d"
      using C6_getNextTransition[OF valid_examples(1), of denver ?d] by blast
    have v: "st 0 = User" "st 1 = User" "st 2 = User" "st 3 = Coparent"
      using st[rule_format, of 0] st[rule_format, of 1] st[rule_format, of 2]
        st[rule_format, of 3]
      by (simp_all add: example_transition_2024)
    have "\<exists>i. 1 \<le> i \<and> i \<le> 14 \<and> st i \<noteq> st 0" by (intro exI[of _ 3]) (simp add: v)
    then obtain k where k: "1 \<le> k" "st k \<noteq> st 0" "\<forall>j. 1 \<le> j \<and> j < k \<longrightarrow> st j = st 0"
      and t: "ct_date t = ?d + k" "ct_description t =
            (if st k = User then ''Children come to you ('' @ formatDate (?d + k) @ '')''
             else ''Children go to '' @ orDefault (COPARENT_NAME denver) ''co-parent''
                  @ '' ('' @ formatDate (?d + k) @ '')'')"
      and c: "getCustodyStatus denver exampleConfig (ct_date t) \<noteq> getCustodyStatus denver exampleConfig ?d"
      using tr by blast
    have "\<not> 3 < k" using k(3)[rule_format, of 3] v by auto
    moreover have "k \<noteq> 1" "k \<noteq> 2" using k(2) v by auto
    ultimately have k3: "k = 3" using k(1) by arith
    have "ct_date t = 19730"
      "ct_description t = ''Children go to co-parent (Mon, Jan 8)''"
      using t by (simp_all add: k3 v january_2024 denver_def orDefault_def)
    then show ?thesis using g c by blast
  qed
  have same: "list_all (\<lambda>i. getCustodyStatus denver mondayConfig (?e + i) =
                 getCustodyStatus denver mondayConfig ?e)
     [1, 2, 3, 4, 5, 6, 7, 8, 9, 10, 11, 12, 13, 14]"
    using monday_fortnight_2024[of 0] monday_fortnight_2024[of 1] monday_fortnight_2024[of 2] monday_fortnight_2024[of 3] monday_fortnight_2024[of 4] monday_fortnight_2024[of 5] monday_fortnight_2024[of 6] monday_fortnight_2024[of 7] monday_fortnight_2024[of 8] monday_fortnight_2024[of 9] monday_fortnight_2024[of 10] monday_fortnight_2024[of 11] monday_fortnight_2024[of 12] monday_fortnight_2024[of 13] monday_fortnight_2024[of 14] 
    by simp
  have fallback: "\<exists>t. getNextTransition denver mondayConfig ?e = Inr t \<and> ct_date t = 19737 \<and>
      ct_description t = ''Next weekend: Mon, Jan 15''"
  proof -
    obtain t st where
      st: "\<forall>i. getCustodyStatus denver mondayConfig (?e + i) = Inr (st i)"
      and g: "getNextTransition denver mondayConfig ?e = Inr t"
      and fb: "(\<forall>i. 1 \<le> i \<and> i \<le> 14 \<longrightarrow> st i = st 0) \<longrightarrow>
       (\<exists>p k. dayIndex (aw_pickupDay (alternatingWeekends mondayConfig)) = Inr p \<and>
          1 \<le> k \<and> k \<le> 7 \<and> ct_date t = ?e + k \<and> getDay (?e + k) = p \<and>
          (\<forall>j. 1 \<le> j \<and> j < k \<longrightarrow> getDay (?e + j) \<noteq> p) \<and>
          ct_description t = ''Next weekend: '' @ formatDate (?e + k))"
      using C6_getNextTransition[OF valid_examples(2), of denver ?e] by blast
    have u: "0 \<le> i \<and> i \<le> 14 \<longrightarrow> st i = User" for i
      using monday_fortnight_2024[of i] st[rule_format, of i] by simp
    have "\<forall>i. 1 \<le> i \<and> i \<le> 14 \<longrightarrow> st i = st 0"
      using u[of 0] u by simp
    then obtain p k where pk:
      "dayIndex (aw_pickupDay (alternatingWeekends mondayConfig)) = Inr p"
      "1 \<le> k" "k \<le> 7" "getDay (?e + k) = p"
      and t: "ct_date t = ?e + k" "ct_description t = ''Next weekend: '' @ formatDate (?e + k)"
      using fb by blast
    have "dayIndex (aw_pickupDay (alternatingWeekends mondayConfig)) = Inr 1"
      by (simp add: mondayConfig_def dayIndex_names)
    then have "(19735 + k) mod 7 = 1" using pk(1,4) by (simp add: getDay_def)
    then have "k = 6" using pk(2,3) by presburger
    then show ?thesis using g t by (simp add: january_2024)
  qed
  show ?thesis
    unfolding january_2024
    by (intro conjI valid_examples ne found same fallback)
qed

subsection \<open>Week summary\<close>

lemma weekLine_status:
  assumes st: "\<forall>i. getCustodyStatus h cfg (date + i) = Inr (st i)"
  shows "weekLine h cfg date i =
    Inr (SHORT_DAYS ! nat (getDay (date + i)) @ '': '' @
         (if st i = User then orDefault (USER_NAME h) ''You''
          else orDefault (COPARENT_NAME h) ''Co-parent'') @
         weekNote (st i) (st (i - 1)) (st (i + 1)))"
  by (simp add: weekLine_def Let_def addDays_eq st[rule_format])

lemma weekLoop_unroll:
  assumes "\<forall>i. weekLine h cfg date i = Inr (l i)"
  shows "weekLoop h cfg date 0 [] = Inr (map l [0, 1, 2, 3, 4, 5, 6])"
  by (simp add: weekLoop.simps assms[rule_format])

lemma july_2024:
  "newDate 2024 6 1 = 19905"
  "getCustodyStatus denver exampleConfig 19904 = Inr Coparent"
  "getCustodyStatus denver exampleConfig 19905 = Inr Coparent"
  "getCustodyStatus denver exampleConfig 19906 = Inr Coparent"
  "getCustodyStatus denver exampleConfig 19907 = Inr User"
  "getCustodyStatus denver exampleConfig 19908 = Inr Coparent"
  "getCustodyStatus denver exampleConfig 19909 = Inr User"
  "getCustodyStatus denver exampleConfig 19910 = Inr User"
  "getCustodyStatus denver exampleConfig 19911 = Inr User"
  "getCustodyStatus denver exampleConfig 19912 = Inr Coparent"
  by code_simp+

text \<open>
  C7, as stated, fails: Wednesday 2024-07-03 is a single day with the user between two
  days with the co-parent (Tuesday, and Thursday the 4th of July, a holiday of the
  co-parent in an even year), and Thursday is a single day with the co-parent between two
  days with the user; the summary of the week of Monday 2024-07-01 annotates both with
  "(pickup)" only.
\<close>

theorem C7_sandwiched_day_single_annotation:
  "getCustodyStatus denver exampleConfig (newDate 2024 6 1 + 1) = Inr Coparent \<and>
   getCustodyStatus denver exampleConfig (newDate 2024 6 1 + 2) = Inr User \<and>
   getCustodyStatus denver exampleConfig (newDate 2024 6 1 + 3) = Inr Coparent \<and>
   getWeekSummary denver exampleConfig (newDate 2024 6 1) =
     Inr (joinLines [''Mon: Co-parent'', ''Tue: Co-parent (drop-off)'', ''Wed: You (pickup)'',
                     ''Thu: Co-parent (pickup)'', ''Fri: You (pickup)'', ''Sat: You'',
                     ''Sun: You (drop-off)''])"
proof -
  have names: "orDefault (USER_NAME denver) ''You'' = ''You''"
    "orDefault (COPARENT_NAME denver) ''Co-parent'' = ''Co-parent''"
    by (simp_all add: denver_def orDefault_def)
  show ?thesis
    by (simp add: july_2024 names getWeekSummary_def weekLoop.simps weekLine_def Let_def
        addDays_eq weekNote_def getDay_def SHORT_DAYS_def)
qed

text \<open>
  C7, amended: for a valid configuration every day has a status and \<open>getWeekSummary\<close>
  joins exactly seven lines, one per day from \<open>date\<close> to \<open>date + 6\<close> in order.  The line of
  a day is its short weekday name, the name of the party who has the children, and at most
  one annotation: "(pickup)" if the party differs from the previous day's; otherwise
  "(drop-off)" if it differs from the next day's; otherwise none.  The two annotations never
  appear together.
\<close>

theorem C7_getWeekSummary:
  assumes "validConfig cfg"
  shows "\<exists>st lines.
    (\<forall>i. getCustodyStatus h cfg (date + i) = Inr (st i)) \<and>
    weekLoop h cfg date 0 [] = Inr lines \<and>
    getWeekSummary h cfg date = Inr (joinLines lines) \<and>
    length lines = 7 \<and>
    lines = map (\<lambda>i. SHORT_DAYS ! nat (getDay (date + i)) @ '': '' @
                     (if st i = User then orDefault (USER_NAME h) ''You''
                      else orDefault (COPARENT_NAME h) ''Co-parent'') @
                     (if st i \<noteq> st (i - 1) then '' (pickup)''
                      else if st i \<noteq> st (i + 1) then '' (drop-off)''
                      else []))
              [0, 1, 2, 3, 4, 5, 6]"
proof -
  obtain f where f: "\<And>d. getCustodyStatus h cfg d = Inr (f d)"
    using status_function[OF assms] by blast
  define st where "st i = f (date + i)" for i
  define l where "l i = SHORT_DAYS ! nat (getDay (date + i)) @ '': '' @
                     (if st i = User then orDefault (USER_NAME h) ''You''
                      else orDefault (COPARENT_NAME h) ''Co-parent'') @
                     (if st i \<noteq> st (i - 1) then '' (pickup)''
                      else if st i \<noteq> st (i + 1) then '' (drop-off)''
                      else [])" for i
  have st: "\<forall>i. getCustodyStatus h cfg (date + i) = Inr (st i)" by (simp add: f st_def)
  have "\<forall>i. weekLine h cfg date i = Inr (l i)"
    unfolding l_def weekLine_status[OF st] by (simp add: weekNote_def)
  then have loop: "weekLoop h cfg date 0 [] = Inr (map l [0, 1, 2, 3, 4, 5, 6])"
    by (rule weekLoop_unroll)
  then have sum: "getWeekSummary h cfg date = Inr (joinLines (map l [0, 1, 2, 3, 4, 5, 6]))"
    by (simp only: getWeekSummary_def sum.case)
  have len: "length (map l [0, 1, 2, 3, 4, 5, 6]) = 7" by simp
  have eq: "map l [0, 1, 2, 3, 4, 5, 6] =
      map (\<lambda>i. SHORT_DAYS ! nat (getDay (date + i)) @ '': '' @
                     (if st i = User then orDefault (USER_NAME h) ''You''
                      else orDefault (COPARENT_NAME h) ''Co-parent'') @
                     (if st i \<noteq> st (i - 1) then '' (pickup)''
                      else if st i \<noteq> st (i + 1) then '' (drop-off)''
                      else []))
              [0, 1, 2, 3, 4, 5, 6]"
    by (simp add: l_def)
  show ?thesis
    by (intro exI[of _ st] exI[of _ "map l [0, 1, 2, 3, 4, 5, 6]"] conjI st loop sum len eq)
qed

theorem C7_getWeekSummary_witness:
  "validConfig exampleConfig \<and>
   (\<exists>lines. weekLoop denver exampleConfig (newDate 2024 6 1) 0 [] = Inr lines \<and>
      getWeekSummary denver exampleConfig (newDate 2024 6 1) = Inr (joinLines lines) \<and>
      length lines = 7 \<and>
      lines ! 0 = ''Mon: Co-parent'' \<and>
      lines ! 1 = ''Tue: Co-parent (drop-off)'' \<and>
      lines ! 2 = ''Wed: You (pickup)'' \<and>
      lines ! 5 = ''Sat: You'' \<and>
      lines ! 6 = ''Sun: You (drop-off)'')"
proof -
  obtain st lines where
    st: "\<forall>i. getCustodyStatus denver exampleConfig (19905 + i) = Inr (st i)"
    and g: "weekLoop denver exampleConfig 19905 0 [] = Inr lines"
      "getWeekSummary denver exampleConfig 19905 = Inr (joinLines lines)" "length lines = 7"
    and l: "lines = map (\<lambda>i. SHORT_DAYS ! nat (getDay (19905 + i)) @ '': '' @
                     (if st i = User then orDefault (USER_NAME denver) ''You''
                      else orDefault (COPARENT_NAME denver) ''Co-parent'') @
                     (if st i \<noteq> st (i - 1) then '' (pickup)''
                      else if st i \<noteq> st (i + 1) then '' (drop-off)''
                      else []))
              [0, 1, 2, 3, 4, 5, 6]"
    using C7_getWeekSummary[OF valid_examples(1), of denver 19905] by blast
  have v: "st (- 1) = Coparent" "st 0 = Coparent" "st 1 = Coparent" "st 2 = User"
    "st 3 = Coparent" "st 4 = User" "st 5 = User" "st 6 = User" "st 7 = Coparent"
    using st[rule_format, of "- 1"] st[rule_format, of 0] st[rule_format, of 1]
      st[rule_format, of 2] st[rule_format, of 3] st[rule_format, of 4]
      st[rule_format, of 5] st[rule_format, of 6] st[rule_format, of 7]
    by (simp_all add: july_2024)
  have "lines ! 0 = ''Mon: Co-parent'' \<and>
      lines ! 1 = ''Tue: Co-parent (drop-off)'' \<and>
      lines ! 2 = ''Wed: You (pickup)'' \<and>
      lines ! 5 = ''Sat: You'' \<and>
      lines ! 6 = ''Sun: You (drop-off)''"
    unfolding l by (simp add: v getDay_def SHORT_DAYS_def denver_def orDefault_def)
  then show ?thesis
    unfolding july_2024(1) using g valid_examples(1) by blast
qed

section \<open>School day\<close>




















end
